theory Spec2Isabelle
  imports Main "HOL-Library.AList" "HOL-Library.Word" "HOL-Library.Char_ord"
    "HOL-Library.List_Lexorder"
begin

section \<open>Data model\<close>

text \<open>
  The database client of the tutorial server (package \<open>db\<close> of tutor4, the same code as
  \<open>tutor3/db.go\<close>) keeps items in a Firestore collection and a counter document
  \<open>Next$SKU\<close> in a second collection. Go's \<open>int\<close> and Firestore's \<open>int64\<close> are both
  64-bit two's complement integers (a 64-bit platform): \<open>64 word\<close>, read as a signed
  number with \<open>sint\<close>, so that \<open>next + 1\<close> wraps as it does in Go.
\<close>

record Item =
  ID :: string
  Name :: string
  Sku :: "64 word"

definition skuDoc :: string where
  "skuDoc = ''Next$SKU''"

definition nextField :: string where
  "nextField = ''next''"

definition startSKU :: "64 word" where
  "startSKU = 1000"

record Client =
  data :: string
  util :: string

subsection \<open>Documents and references\<close>

text \<open>
  A Firestore value is one of a few kinds; the code only ever tells an integer from
  everything else (the type assertion \<open>valRef.(int64)\<close>) and decodes strings and integers
  into an \<open>Item\<close>. A document is its list of fields, a reference is the name of the
  collection with the document ID, and the database is the list of its documents.
\<close>

datatype fsvalue = NullValue | BooleanValue bool | IntegerValue "64 word" | StringValue string

type_synonym document = "(string \<times> fsvalue) list"

type_synonym docref = "string \<times> string"

type_synonym store = "(docref \<times> document) list"

subsection \<open>Errors\<close>

text \<open>
  A Go \<open>error\<close> is a value: an error of the store carrying a gRPC status code, the
  sentinel made by \<open>errors.New\<close>, or the result of \<open>fmt.Errorf\<close>, which keeps its format
  and arguments and either wraps an error (verb \<open>%w\<close>) or only prints it (\<open>%s\<close>).
\<close>

datatype Code = OK | Canceled | Unknown | InvalidArgument | DeadlineExceeded | NotFound
  | AlreadyExists | PermissionDenied | ResourceExhausted | FailedPrecondition | Aborted
  | OutOfRange | Unimplemented | Internal | Unavailable | DataLoss | Unauthenticated

datatype fmtarg = ArgS string | ArgD "64 word" | ArgV document

datatype error =
    Status Code
  | New string
  | Errorf string "fmtarg list"
  | ErrorfS string "fmtarg list" error
  | ErrorfW string "fmtarg list" error

datatype logarg = LogS string | LogD "64 word" | LogE error

definition ErrNotFound :: error where
  "ErrNotFound = New ''not found''"

text \<open>\<open>status.Code\<close>: the code of a status error, \<open>Unknown\<close> for any other error.\<close>

fun status_Code :: "error \<Rightarrow> Code" where
  "status_Code (Status c) = c"
| "status_Code (New s) = Unknown"
| "status_Code (Errorf f as) = Unknown"
| "status_Code (ErrorfS f as e) = Unknown"
| "status_Code (ErrorfW f as e) = Unknown"

text \<open>\<open>errors.Is\<close>: the error itself, or one it wraps with \<open>%w\<close>, is the target.\<close>

fun errors_Is :: "error \<Rightarrow> error \<Rightarrow> bool" where
  "errors_Is (ErrorfW f as e) target = (ErrorfW f as e = target \<or> errors_Is e target)"
| "errors_Is e target = (e = target)"

section \<open>The transactional store\<close>

text \<open>
  Modelled from the spec: the transactional document store (the Firestore client library)
  is an external collaborator whose code is not part of the repository. Sections 4.1 and 6
  of the specification and the comments of the code give what it does: get, create
  (fail if the document exists), set (upsert), delete (of an absent document too),
  query by field and ordered scan; transactions whose writes are staged and applied
  atomically at commit, whose body is run again by the store when the commit reports a
  conflict, and in which all reads come before all writes.

  The state of the world is the content of the database, the outcome of each coming call
  into the store (status \<open>OK\<close>: the call is served; any other status: the call fails
  with it; an exhausted list: every further call is served) and the lines logged so far.
\<close>

record world =
  docs :: store
  faults :: "Code list"
  logs :: "(string \<times> logarg list) list"

definition call :: "world \<Rightarrow> error option \<times> world" where
  "call w = (case faults w of
       [] \<Rightarrow> (None, w)
     | c # cs \<Rightarrow> (if c = OK then None else Some (Status c), w\<lparr>faults := cs\<rparr>))"

definition log_Printf :: "string \<Rightarrow> logarg list \<Rightarrow> world \<Rightarrow> world" where
  "log_Printf f as w = w\<lparr>logs := logs w @ [(f, as)]\<rparr>"

definition log_Println :: "string \<Rightarrow> world \<Rightarrow> world" where
  "log_Println s w = log_Printf s [] w"

subsection \<open>Documents\<close>

text \<open>
  Modelled from the spec: reading one field of a document snapshot (\<open>DataAt\<close>), which
  fails when the document has no such field.
\<close>

definition DataAt :: "document \<Rightarrow> string \<Rightarrow> error + fsvalue" where
  "DataAt d f = (case map_of d f of
       None \<Rightarrow> Inl (Errorf ''firestore: no field %q'' [ArgS f])
     | Some v \<Rightarrow> Inr v)"

text \<open>
  Modelled from the spec: the encoding of a record as a document and its decoding
  (\<open>DataTo\<close>). The fields of an \<open>Item\<close> as the struct tags \<open>firestore:"id"\<close>, \<open>"name"\<close>, \<open>"sku"\<close>
  name them, and the way back: a field that is absent or null leaves the zero value, a
  field of another kind is a decoding error.
\<close>

definition item_doc :: "Item \<Rightarrow> document" where
  "item_doc i = [(''id'', StringValue (ID i)), (''name'', StringValue (Name i)),
     (''sku'', IntegerValue (Sku i))]"

definition string_field :: "document \<Rightarrow> string \<Rightarrow> string option" where
  "string_field d f = (case map_of d f of
       None \<Rightarrow> Some []
     | Some NullValue \<Rightarrow> Some []
     | Some (StringValue s) \<Rightarrow> Some s
     | Some _ \<Rightarrow> None)"

definition int_field :: "document \<Rightarrow> string \<Rightarrow> 64 word option" where
  "int_field d f = (case map_of d f of
       None \<Rightarrow> Some 0
     | Some NullValue \<Rightarrow> Some 0
     | Some (IntegerValue v) \<Rightarrow> Some v
     | Some _ \<Rightarrow> None)"

definition DataTo :: "document \<Rightarrow> error + Item" where
  "DataTo d = (case string_field d ''id'' of
       None \<Rightarrow> Inl (Errorf ''firestore: cannot set type %s'' [ArgS ''id''])
     | Some a \<Rightarrow> (case string_field d ''name'' of
         None \<Rightarrow> Inl (Errorf ''firestore: cannot set type %s'' [ArgS ''name''])
       | Some b \<Rightarrow> (case int_field d ''sku'' of
           None \<Rightarrow> Inl (Errorf ''firestore: cannot set type %s'' [ArgS ''sku''])
         | Some n \<Rightarrow> Inr \<lparr>ID = a, Name = b, Sku = n\<rparr>)))"

subsection \<open>Calls outside a transaction\<close>

text \<open>
  Modelled from the spec: the operations of section 4.1 outside a transaction.
  \<open>fetch(id) -> Record | NotFound\<close> is \<open>doc_Get\<close>, \<open>upsert(id, Record) -> Ok\<close> is
  \<open>doc_Set\<close>, and \<open>delete(id) -> Ok (idempotent)\<close> is \<open>doc_Delete\<close>: deleting a
  document that is not there is no error.
\<close>

definition doc_Get :: "world \<Rightarrow> docref \<Rightarrow> (error + document) \<times> world" where
  "doc_Get w ref = (case call w of
       (Some err, w1) \<Rightarrow> (Inl err, w1)
     | (None, w1) \<Rightarrow> (case map_of (docs w1) ref of
         None \<Rightarrow> (Inl (Status NotFound), w1)
       | Some d \<Rightarrow> (Inr d, w1)))"

definition doc_Set :: "world \<Rightarrow> docref \<Rightarrow> document \<Rightarrow> error option \<times> world" where
  "doc_Set w ref d = (case call w of
       (Some err, w1) \<Rightarrow> (Some err, w1)
     | (None, w1) \<Rightarrow> (None, w1\<lparr>docs := AList.update ref d (docs w1)\<rparr>))"

definition doc_Delete :: "world \<Rightarrow> docref \<Rightarrow> error option \<times> world" where
  "doc_Delete w ref = (case call w of
       (Some err, w1) \<Rightarrow> (Some err, w1)
     | (None, w1) \<Rightarrow> (None, w1\<lparr>docs := AList.delete ref (docs w1)\<rparr>))"

text \<open>
  Modelled from the spec: the ordered scan and the query by field of section 4.1.
  The documents of a collection, by ascending document ID (the order of
  \<open>OrderBy(firestore.DocumentID, firestore.Asc)\<close>, and of a query that names no order),
  and the queries the client runs: each gives the document IDs with the documents.
\<close>

definition collection_docs :: "store \<Rightarrow> string \<Rightarrow> (string \<times> document) list" where
  "collection_docs s coll = sort_key fst (map (\<lambda>(r, d). (snd r, d)) (filter (\<lambda>(r, d). fst r = coll) s))"

definition query_GetAll :: "world \<Rightarrow> string \<Rightarrow> (document \<Rightarrow> bool) \<Rightarrow>
    (error + (string \<times> document) list) \<times> world" where
  "query_GetAll w coll cond = (case call w of
       (Some err, w1) \<Rightarrow> (Inl err, w1)
     | (None, w1) \<Rightarrow> (Inr (filter (\<lambda>(k, d). cond d) (collection_docs (docs w1) coll)), w1))"

subsection \<open>Transactions\<close>

text \<open>
  Modelled from the spec: the transactional get, create and update of section 6.
  A transaction is the list of what its body has asked for so far, in the order of the
  program. A read is answered from the database; a read after a write is refused. The
  writes are staged, and applied together at commit: an update asks that the document
  exists, a create that it does not. When a write cannot be applied, none is.
\<close>

datatype txop =
    TxGet docref
  | TxUpdate docref "(string \<times> fsvalue) list"
  | TxCreate docref document

type_synonym transaction = "txop list"

fun is_write :: "txop \<Rightarrow> bool" where
  "is_write (TxGet r) = False"
| "is_write (TxUpdate r us) = True"
| "is_write (TxCreate r d) = True"

definition tx_Get :: "world \<Rightarrow> transaction \<Rightarrow> docref \<Rightarrow>
    (error + document) \<times> world \<times> transaction" where
  "tx_Get w tx ref =
     (if list_ex is_write tx
      then (Inl (New ''firestore: read after write in transaction''), w, tx)
      else (case call w of
          (Some err, w1) \<Rightarrow> (Inl err, w1, tx)
        | (None, w1) \<Rightarrow> (case map_of (docs w1) ref of
            None \<Rightarrow> (Inl (Status NotFound), w1, tx @ [TxGet ref])
          | Some d \<Rightarrow> (Inr d, w1, tx @ [TxGet ref]))))"

definition tx_Update :: "world \<Rightarrow> transaction \<Rightarrow> docref \<Rightarrow> (string \<times> fsvalue) list \<Rightarrow>
    error option \<times> world \<times> transaction" where
  "tx_Update w tx ref us = (case call w of
       (Some err, w1) \<Rightarrow> (Some err, w1, tx)
     | (None, w1) \<Rightarrow> (None, w1, tx @ [TxUpdate ref us]))"

definition tx_Create :: "world \<Rightarrow> transaction \<Rightarrow> docref \<Rightarrow> document \<Rightarrow>
    error option \<times> world \<times> transaction" where
  "tx_Create w tx ref d = (case call w of
       (Some err, w1) \<Rightarrow> (Some err, w1, tx)
     | (None, w1) \<Rightarrow> (None, w1, tx @ [TxCreate ref d]))"

definition set_fields :: "(string \<times> fsvalue) list \<Rightarrow> document \<Rightarrow> document" where
  "set_fields us d = fold (\<lambda>(k, v). AList.update k v) us d"

fun apply_writes :: "store \<Rightarrow> txop list \<Rightarrow> error + store" where
  "apply_writes s [] = Inr s"
| "apply_writes s (TxGet r # ops) = apply_writes s ops"
| "apply_writes s (TxUpdate r us # ops) = (case map_of s r of
       None \<Rightarrow> Inl (Status NotFound)
     | Some d \<Rightarrow> apply_writes (AList.update r (set_fields us d) s) ops)"
| "apply_writes s (TxCreate r d # ops) = (case map_of s r of
       Some old \<Rightarrow> Inl (Status AlreadyExists)
     | None \<Rightarrow> apply_writes (AList.update r d s) ops)"

definition Commit :: "world \<Rightarrow> transaction \<Rightarrow> error option \<times> world" where
  "Commit w tx = (case call w of
       (Some err, w1) \<Rightarrow> (Some err, w1)
     | (None, w1) \<Rightarrow> (case apply_writes (docs w1) tx of
         Inl err \<Rightarrow> (Some err, w1)
       | Inr s \<Rightarrow> (None, w1\<lparr>docs := s\<rparr>)))"

text \<open>
  Modelled from the spec: running a transaction (sections 4.3 and 6).
  The body of a transaction is a Go closure: it is given the transaction, and what it
  captures from its caller (for \<open>create\<close> the item behind the caller's pointer) is a
  state of type \<open>'l\<close> that it may change. \<open>RunTransaction\<close> begins a transaction and
  runs the body; an error of the body ends the run with that error and nothing
  written; otherwise it commits. A commit that fails with \<open>Aborted\<close> (a conflict) runs the
  body again from scratch, at most \<open>DefaultTransactionMaxAttempts\<close> times in all; any
  other failure of the commit is returned.
\<close>

type_synonym 'l txbody =
  "world \<Rightarrow> transaction \<Rightarrow> 'l \<Rightarrow> error option \<times> world \<times> transaction \<times> 'l"

definition DefaultTransactionMaxAttempts :: nat where
  "DefaultTransactionMaxAttempts = 5"

fun RunTransaction_attempts :: "nat \<Rightarrow> error option \<Rightarrow> 'l txbody \<Rightarrow> world \<Rightarrow> 'l \<Rightarrow>
    error option \<times> world \<times> 'l" where
  "RunTransaction_attempts 0 prev f w l = (prev, w, l)"
| "RunTransaction_attempts (Suc n) prev f w l =
     (case call w of
        (Some err, w0) \<Rightarrow> (Some err, w0, l)
      | (None, w0) \<Rightarrow> (case f w0 [] l of
          (Some err, w1, tx, l1) \<Rightarrow> (Some err, w1, l1)
        | (None, w1, tx, l1) \<Rightarrow> (case Commit w1 tx of
            (None, w2) \<Rightarrow> (None, w2, l1)
          | (Some err, w2) \<Rightarrow>
              if status_Code err \<noteq> Aborted then (Some err, w2, l1)
              else RunTransaction_attempts n (Some err) f w2 l1)))"

definition RunTransaction :: "'l txbody \<Rightarrow> world \<Rightarrow> 'l \<Rightarrow> error option \<times> world \<times> 'l" where
  "RunTransaction f w l = RunTransaction_attempts DefaultTransactionMaxAttempts None f w l"

section \<open>The client\<close>

subsection \<open>The counter\<close>

definition startSKU_body :: "docref \<Rightarrow> unit txbody" where
  "startSKU_body ref w tx u =
     (case tx_Get w tx ref of
        (Inl err, w1, tx1) \<Rightarrow>
          if status_Code err = NotFound then
            (let w2 = log_Println ''no SKU doc, adding it'' w1;
                 fields = [(nextField, IntegerValue startSKU)]
             in case tx_Create w2 tx1 ref fields of
                  (Some err2, w3, tx3) \<Rightarrow>
                    (Some (ErrorfS ''add SKU failed: %s'' [] err2), w3, tx3, u)
                | (None, w3, tx3) \<Rightarrow> (None, w3, tx3, u))
          else (Some err, w1, tx1, u)
      | (Inr doc, w1, tx1) \<Rightarrow> (case DataAt doc nextField of
          Inl err \<Rightarrow> (Some err, w1, tx1, u)
        | Inr valRef \<Rightarrow> (case valRef of
            IntegerValue val \<Rightarrow>
              (None, log_Printf ''started SKU, %s = %v'' [LogS nextField, LogD val] w1, tx1, u)
          | _ \<Rightarrow> (Some (Errorf ''can't read %s: %v'' [ArgS nextField, ArgV doc]), w1, tx1, u))))"

definition Client_startSKU :: "Client \<Rightarrow> world \<Rightarrow> error option \<times> world" where
  "Client_startSKU c w =
     (let ref = (util c, skuDoc)
      in case RunTransaction (startSKU_body ref) w () of (r, w1, u) \<Rightarrow> (r, w1))"

text \<open>
  \<open>NewClient\<close>: the connection to the store is one more call that may fail; the client
  is returned only when the counter has been started.
\<close>

definition NewClient :: "string \<Rightarrow> string \<Rightarrow> string \<Rightarrow> world \<Rightarrow> (error + Client) \<times> world" where
  "NewClient project dataName utilName w =
     (if project = [] then (Inl (New ''no projectID''), w)
      else (case call w of
          (Some err, w1) \<Rightarrow> (Inl (ErrorfW ''failed to create FS client: %w'' [] err), w1)
        | (None, w1) \<Rightarrow>
            (let c = \<lparr>data = dataName, util = utilName\<rparr>
             in case Client_startSKU c w1 of
                  (Some err, w2) \<Rightarrow> (Inl err, w2)
                | (None, w2) \<Rightarrow> (Inr c, w2))))"

definition getNext :: "docref \<Rightarrow> world \<Rightarrow> transaction \<Rightarrow>
    (error + 64 word) \<times> world \<times> transaction" where
  "getNext seqRef w tx =
     (case tx_Get w tx seqRef of
        (Inl err, w1, tx1) \<Rightarrow> (Inl err, w1, tx1)
      | (Inr seq, w1, tx1) \<Rightarrow> (case DataAt seq nextField of
          Inl err \<Rightarrow> (Inl err, w1, tx1)
        | Inr valRef \<Rightarrow> (case valRef of
            IntegerValue val \<Rightarrow> (Inr val, w1, tx1)
          | _ \<Rightarrow> (Inl (Errorf ''can't read %s'' [ArgS nextField]), w1, tx1))))"

subsection \<open>Creating an item\<close>

definition create_body :: "docref \<Rightarrow> docref \<Rightarrow> Item txbody" where
  "create_body seqRef ref w tx item =
     (case getNext seqRef w tx of
        (Inl err, w1, tx1) \<Rightarrow> (Some err, w1, tx1, item)
      | (Inr next, w1, tx1) \<Rightarrow>
          (let item1 = item\<lparr>Sku := next\<rparr>
           in case tx_Update w1 tx1 seqRef [(nextField, IntegerValue (next + 1))] of
                (Some err, w2, tx2) \<Rightarrow> (Some err, w2, tx2, item1)
              | (None, w2, tx2) \<Rightarrow> (case tx_Create w2 tx2 ref (item_doc item1) of
                  (Some err, w3, tx3) \<Rightarrow> (Some err, w3, tx3, item1)
                | (None, w3, tx3) \<Rightarrow> (None, w3, tx3, item1))))"

definition create :: "Client \<Rightarrow> world \<Rightarrow> docref \<Rightarrow> Item \<Rightarrow> error option \<times> world \<times> Item" where
  "create c w ref item =
     (let seqRef = (util c, skuDoc)
      in RunTransaction (create_body seqRef ref) w item)"

text \<open>
  \<open>AddItem\<close> loops (\<open>goto add\<close>) for as long as the identifier it drew exists already.
  The identifiers that \<open>uuid.New\<close> gives, one for each turn of the loop, are a list; a run
  that has used them all without leaving the loop has not returned (\<open>None\<close>). The result
  gives what \<open>AddItem\<close> returns, the identifiers not drawn, and the item behind the
  caller's pointer as the call leaves it.
\<close>

fun AddItem :: "Client \<Rightarrow> string list \<Rightarrow> world \<Rightarrow> Item \<Rightarrow>
    ((error + string) \<times> string list \<times> world \<times> Item) option" where
  "AddItem c [] w i = None"
| "AddItem c (u # us) w i =
     (let i1 = i\<lparr>ID := u\<rparr>;
          ref = (data c, ID i1)
      in case create c w ref i1 of
           (Some err, w1, i2) \<Rightarrow>
             if status_Code err = AlreadyExists then AddItem c us w1 i2
             else Some (Inl err, us, w1, i2)
         | (None, w1, i2) \<Rightarrow> Some (Inr (ID i2), us, w1, i2))"

subsection \<open>Reading, updating and deleting items\<close>

definition GetItem :: "Client \<Rightarrow> world \<Rightarrow> string \<Rightarrow> (error + Item) \<times> world" where
  "GetItem c w ident =
     (case doc_Get w (data c, ident) of
        (Inl err, w1) \<Rightarrow>
          if status_Code err = NotFound
          then (Inl (ErrorfW ''%s: %w'' [ArgS ident] ErrNotFound), w1)
          else (Inl (ErrorfW ''item %s: %w'' [ArgS ident] err), w1)
      | (Inr doc, w1) \<Rightarrow> (case DataTo doc of
          Inl err \<Rightarrow> (Inl (ErrorfW ''item %s decode: %w'' [ArgS ident] err), w1)
        | Inr i \<Rightarrow> (Inr i, w1)))"

definition GetItemBySKU :: "Client \<Rightarrow> world \<Rightarrow> 64 word \<Rightarrow> (error + Item) \<times> world" where
  "GetItemBySKU c w sku =
     (case query_GetAll w (data c) (\<lambda>d. map_of d ''sku'' = Some (IntegerValue sku)) of
        (Inl err, w1) \<Rightarrow>
          (Inl err, log_Printf ''error finding sku %d: %s'' [LogD sku, LogE err] w1)
      | (Inr ds, w1) \<Rightarrow> (case ds of
          [] \<Rightarrow> (Inl (ErrorfW ''sku %d: %w'' [ArgD sku] ErrNotFound), w1)
        | doc # rest \<Rightarrow> (case DataTo (snd doc) of
            Inl err \<Rightarrow>
              (Inl err, log_Printf ''item %s decode: %s'' [LogS (fst doc), LogE err] w1)
          | Inr i \<Rightarrow> (Inr i, w1))))"

text \<open>
  The loop of \<open>ListItems\<close> over the documents of the scan: a document that does not
  decode is logged and skipped (\<open>continue\<close>), any other is appended to the result.
\<close>

fun ListItems_loop :: "(string \<times> document) list \<Rightarrow> world \<Rightarrow> Item list \<Rightarrow> Item list \<times> world" where
  "ListItems_loop [] w result = (result, w)"
| "ListItems_loop (doc # rest) w result = (case DataTo (snd doc) of
       Inl err \<Rightarrow>
         ListItems_loop rest (log_Printf ''item %s decode: %s'' [LogS (fst doc), LogE err] w) result
     | Inr i \<Rightarrow> ListItems_loop rest w (result @ [i]))"

definition ListItems :: "Client \<Rightarrow> world \<Rightarrow> (error + Item list) \<times> world" where
  "ListItems c w =
     (case query_GetAll w (data c) (\<lambda>d. True) of
        (Inl err, w1) \<Rightarrow> (Inl err, w1)
      | (Inr ds, w1) \<Rightarrow> (case ListItems_loop ds w1 [] of (result, w2) \<Rightarrow> (Inr result, w2)))"

definition UpdateItem :: "Client \<Rightarrow> world \<Rightarrow> Item \<Rightarrow> error option \<times> world" where
  "UpdateItem c w i =
     (let ref = (data c, ID i)
      in case doc_Get w ref of
           (Inl err, w1) \<Rightarrow>
             if status_Code err = NotFound
             then (Some (ErrorfW ''%s: %w'' [ArgS (ID i)] ErrNotFound), w1)
             else (Some err, w1)
         | (Inr old, w1) \<Rightarrow> (case doc_Set w1 ref (item_doc i) of
             (Some err, w2) \<Rightarrow> (Some err, w2)
           | (None, w2) \<Rightarrow> (None, w2)))"

definition DeleteItem :: "Client \<Rightarrow> world \<Rightarrow> string \<Rightarrow> error option \<times> world" where
  "DeleteItem c w ident =
     (case doc_Delete w (data c, ident) of
        (Some err, w1) \<Rightarrow> (Some err, w1)
      | (None, w1) \<Rightarrow> (None, w1))"

section \<open>Observations and runs\<close>

text \<open>
  What the properties below speak about: the value of the counter as the database holds
  it, a run of calls of \<open>create\<close> one after the other (it gives the final state and the
  items of the calls that succeeded, in order), and a small shop to run the code on.
\<close>

definition next_value :: "Client \<Rightarrow> world \<Rightarrow> 64 word option" where
  "next_value c w = (case map_of (docs w) (util c, skuDoc) of
       None \<Rightarrow> None
     | Some d \<Rightarrow> (case map_of d nextField of Some (IntegerValue n) \<Rightarrow> Some n | _ \<Rightarrow> None))"

fun create_all :: "Client \<Rightarrow> world \<Rightarrow> (docref \<times> Item) list \<Rightarrow> world \<times> Item list" where
  "create_all c w [] = (w, [])"
| "create_all c w (rq # rest) = (case create c w (fst rq) (snd rq) of
       (Some err, w1, item1) \<Rightarrow> create_all c w1 rest
     | (None, w1, item1) \<Rightarrow> (case create_all c w1 rest of (w2, items) \<Rightarrow> (w2, item1 # items)))"

definition shop :: Client where
  "shop = \<lparr>data = ''items'', util = ''util''\<rparr>"

definition fresh :: world where
  "fresh = \<lparr>docs = [], faults = [], logs = []\<rparr>"

definition seeded :: world where
  "seeded = \<lparr>docs = [((''util'', ''Next$SKU''), [(''next'', IntegerValue 1000)])],
     faults = [], logs = [(''no SKU doc, adding it'', [])]\<rparr>"

definition spoon :: Item where
  "spoon = \<lparr>ID = ''a'', Name = ''spoon'', Sku = 1000\<rparr>"

definition spork :: Item where
  "spork = \<lparr>ID = ''b'', Name = ''spork'', Sku = 1001\<rparr>"

definition one_spoon :: world where
  "one_spoon = \<lparr>docs = [((''util'', ''Next$SKU''), [(''next'', IntegerValue 1001)]),
       ((''items'', ''a''), [(''id'', StringValue ''a''), (''name'', StringValue ''spoon''),
          (''sku'', IntegerValue 1000)])],
     faults = [], logs = [(''no SKU doc, adding it'', [])]\<rparr>"

definition spoon_and_spork :: world where
  "spoon_and_spork = \<lparr>docs = [((''util'', ''Next$SKU''), [(''next'', IntegerValue 1002)]),
       ((''items'', ''a''), [(''id'', StringValue ''a''), (''name'', StringValue ''spoon''),
          (''sku'', IntegerValue 1000)]),
       ((''items'', ''b''), [(''id'', StringValue ''b''), (''name'', StringValue ''spork''),
          (''sku'', IntegerValue 1001)])],
     faults = [], logs = [(''no SKU doc, adding it'', [])]\<rparr>"

definition sold_out :: world where
  "sold_out = \<lparr>docs = [((''util'', ''Next$SKU''), [(''next'', IntegerValue 1001)])],
     faults = [], logs = [(''no SKU doc, adding it'', [])]\<rparr>"

text \<open>A counter that is not a number, a store that fails at the commit, a record whose
  update has replaced its sequence number, and a collection with a document that does
  not decode.\<close>

definition garbled :: world where
  "garbled = \<lparr>docs = [((''util'', ''Next$SKU''), [(''next'', StringValue ''1000'')])],
     faults = [], logs = []\<rparr>"

definition flaky :: world where
  "flaky = \<lparr>docs = [((''util'', ''Next$SKU''), [(''next'', IntegerValue 1000)])],
     faults = [OK, OK, OK, OK, Unavailable], logs = []\<rparr>"

definition relabelled :: world where
  "relabelled = \<lparr>docs = [((''util'', ''Next$SKU''), [(''next'', IntegerValue 1001)]),
       ((''items'', ''a''), [(''id'', StringValue ''a''), (''name'', StringValue ''ladle''),
          (''sku'', IntegerValue 0)])],
     faults = [], logs = [(''no SKU doc, adding it'', [])]\<rparr>"

definition mixed :: world where
  "mixed = \<lparr>docs = [((''util'', ''Next$SKU''), [(''next'', IntegerValue 1002)]),
       ((''items'', ''b''), [(''id'', StringValue ''b''), (''name'', StringValue ''spork''),
          (''sku'', StringValue ''1001'')]),
       ((''items'', ''a''), [(''id'', StringValue ''a''), (''name'', StringValue ''spoon''),
          (''sku'', IntegerValue 1000)])],
     faults = [], logs = []\<rparr>"

text \<open>
  What \<open>ListItems\<close> is to return for a scan, in the words of its description: the
  records of the documents that decode, in the order of the scan, and one log line for
  each document that does not.
\<close>

definition decode_items :: "(string \<times> document) list \<Rightarrow> Item list" where
  "decode_items ds =
     List.map_filter (\<lambda>d. case DataTo (snd d) of Inl err \<Rightarrow> None | Inr i \<Rightarrow> Some i) ds"

definition decode_logs :: "(string \<times> document) list \<Rightarrow> (string \<times> logarg list) list" where
  "decode_logs ds = List.map_filter (\<lambda>d. case DataTo (snd d) of
       Inl err \<Rightarrow> Some (''item %s decode: %s'', [LogS (fst d), LogE err])
     | Inr i \<Rightarrow> None) ds"

text \<open>
  A run of requests to the client, one after the other, as the handlers of the server
  make them. It gives the final state and the records of the calls of \<open>AddItem\<close> that
  returned an identifier, in order; a call of \<open>AddItem\<close> that does not return ends the
  run without a result. \<open>sequences_ok c s m\<close> holds of a database in which every record
  of the data collection decodes with a sequence number of at least 1000, and in which
  the counter, when it is there, is between 1000 and \<open>1000 + m\<close>.
\<close>

datatype request = Add "string list" Item | Get string | GetBySKU "64 word" | List
  | Update Item | Delete string

fun is_Add :: "request \<Rightarrow> bool" where
  "is_Add (Add us i) = True"
| "is_Add rq = False"

fun serve_all :: "Client \<Rightarrow> world \<Rightarrow> request list \<Rightarrow> (world \<times> Item list) option" where
  "serve_all c w [] = Some (w, [])"
| "serve_all c w (Add us i # rs) = (case AddItem c us w i of
       None \<Rightarrow> None
     | Some (res, us', w1, i1) \<Rightarrow> (case serve_all c w1 rs of
         None \<Rightarrow> None
       | Some (w2, created) \<Rightarrow>
           Some (w2, (case res of Inl err \<Rightarrow> created | Inr u \<Rightarrow> i1 # created))))"
| "serve_all c w (Get k # rs) = serve_all c (snd (GetItem c w k)) rs"
| "serve_all c w (GetBySKU sku # rs) = serve_all c (snd (GetItemBySKU c w sku)) rs"
| "serve_all c w (List # rs) = serve_all c (snd (ListItems c w)) rs"
| "serve_all c w (Update i # rs) = serve_all c (snd (UpdateItem c w i)) rs"
| "serve_all c w (Delete k # rs) = serve_all c (snd (DeleteItem c w k)) rs"

definition sequences_ok :: "Client \<Rightarrow> store \<Rightarrow> int \<Rightarrow> bool" where
  "sequences_ok c s m \<longleftrightarrow>
     (\<forall>(r, d) \<in> set s. fst r = data c \<and> r \<noteq> (util c, skuDoc) \<longrightarrow>
        (\<exists>i. DataTo d = Inr i \<and> 1000 \<le> sint (Sku i))) \<and>
     (\<forall>d n. map_of s (util c, skuDoc) = Some d \<and> map_of d nextField = Some (IntegerValue n) \<longrightarrow>
        1000 \<le> sint n \<and> sint n \<le> 1000 + m)"

section \<open>Properties of the store and of transactions\<close>

lemma call_frame: "call w = (r, w') \<Longrightarrow> docs w' = docs w \<and> logs w' = logs w"
  by (auto simp: call_def split: list.splits if_splits)

lemma call_error: "call w = (Some e, w') \<Longrightarrow> e = Status (status_Code e)"
  by (auto simp: call_def split: list.splits if_splits)

lemma tx_Get_frame: "tx_Get w tx ref = (r, w', tx') \<Longrightarrow> docs w' = docs w \<and> logs w' = logs w"
  by (auto simp: tx_Get_def split: if_splits prod.splits option.splits dest: call_frame)

lemma tx_Update_frame:
  "tx_Update w tx ref us = (r, w', tx') \<Longrightarrow> docs w' = docs w \<and> logs w' = logs w"
  by (auto simp: tx_Update_def split: if_splits prod.splits option.splits dest: call_frame)

lemma tx_Create_frame:
  "tx_Create w tx ref d = (r, w', tx') \<Longrightarrow> docs w' = docs w \<and> logs w' = logs w"
  by (auto simp: tx_Create_def split: if_splits prod.splits option.splits dest: call_frame)

lemma set_fields_single: "set_fields [(k, v)] d = AList.update k v d"
  by (simp add: set_fields_def)

lemma Commit_cases:
  "Commit w tx = (r, w') \<Longrightarrow>
     (case r of Some e \<Rightarrow> docs w' = docs w | None \<Rightarrow> apply_writes (docs w) tx = Inr (docs w')) \<and>
     logs w' = logs w"
  by (auto simp: Commit_def split: prod.splits option.splits sum.splits dest!: call_frame)

text \<open>
  What a run of \<open>RunTransaction\<close> comes to, for a body that leaves the database alone
  and keeps a property \<open>I\<close> of what it captured: a run that fails has written nothing;
  a run that succeeds has applied, to the database it started from, the writes of one
  run of the body from scratch.
\<close>

lemma RunTransaction_attempts_cases:
  assumes frame: "\<And>w tx l r w' tx' l'. f w tx l = (r, w', tx', l') \<Longrightarrow> docs w' = docs w"
      and inv: "\<And>w tx l r w' tx' l'. I l \<Longrightarrow> f w tx l = (r, w', tx', l') \<Longrightarrow> I l'"
  shows "I l \<Longrightarrow> RunTransaction_attempts n prev f w l = (r, w', l') \<Longrightarrow>
     I l' \<and> (case r of
        Some e \<Rightarrow> docs w' = docs w
      | None \<Rightarrow> (n = 0 \<and> prev = None \<and> w' = w) \<or>
          (\<exists>w0 l0 w1 tx. docs w0 = docs w \<and> I l0 \<and> f w0 [] l0 = (None, w1, tx, l') \<and>
             apply_writes (docs w) tx = Inr (docs w')))"
proof (induction n arbitrary: prev w l)
  case 0
  then show ?case by (auto split: option.splits)
next
  case (Suc n)
  obtain b w0 where c: "call w = (b, w0)" by (cases "call w")
  note d0 = call_frame[OF c]
  show ?case
  proof (cases b)
    case (Some e)
    with Suc.prems c d0 show ?thesis by auto
  next
    case None
    obtain rb w1 tx l1 where fb: "f w0 [] l = (rb, w1, tx, l1)" by (cases "f w0 [] l")
    note d1 = frame[OF fb]
    note i1 = inv[OF Suc.prems(1) fb]
    show ?thesis
    proof (cases rb)
      case (Some e)
      with Suc.prems c None fb d0 d1 i1 show ?thesis by auto
    next
      case rbN: None
      obtain rc w2 where cm: "Commit w1 tx = (rc, w2)" by (cases "Commit w1 tx")
      note d2 = Commit_cases[OF cm]
      show ?thesis
      proof (cases rc)
        case None
        with Suc.prems c \<open>b = None\<close> fb rbN cm
        have eq: "r = None" "w' = w2" "l' = l1" by auto
        have "\<exists>w0 l0 w1 tx. docs w0 = docs w \<and> I l0 \<and> f w0 [] l0 = (None, w1, tx, l') \<and>
             apply_writes (docs w) tx = Inr (docs w')"
          using d0 d1 d2 fb rbN None eq Suc.prems(1)
          by (intro exI[of _ w0] exI[of _ l] exI[of _ w1] exI[of _ tx]) auto
        with eq i1 show ?thesis by simp
      next
        case (Some e)
        show ?thesis
        proof (cases "status_Code e \<noteq> Aborted")
          case True
          with Suc.prems c \<open>b = None\<close> fb rbN cm d0 d1 d2 i1 Some show ?thesis by auto
        next
          case False
          with Suc.prems(2) c \<open>b = None\<close> fb rbN cm Some
          have rec: "RunTransaction_attempts n (Some e) f w2 l1 = (r, w', l')" by simp
          from Suc.IH[OF i1 rec] d0 d1 d2 Some show ?thesis
            by (auto split: option.splits)
        qed
      qed
    qed
  qed
qed

section \<open>Properties of \<open>create\<close>\<close>

lemma getNext_frame:
  "getNext seqRef w tx = (r, w', tx') \<Longrightarrow> docs w' = docs w \<and> logs w' = logs w"
  by (auto simp: getNext_def split: prod.splits sum.splits fsvalue.splits dest: tx_Get_frame)

lemma getNext_Inr:
  "getNext seqRef w [] = (Inr n, w', tx') \<Longrightarrow>
     tx' = [TxGet seqRef] \<and>
     (\<exists>d. map_of (docs w) seqRef = Some d \<and> map_of d nextField = Some (IntegerValue n))"
  by (auto simp: getNext_def tx_Get_def DataAt_def
      split: prod.splits sum.splits fsvalue.splits option.splits if_splits dest: call_frame)

lemma create_body_frame:
  "create_body seqRef ref w tx item = (r, w', tx', item') \<Longrightarrow>
     docs w' = docs w \<and> logs w' = logs w"
  by (auto simp: create_body_def Let_def split: prod.splits sum.splits option.splits
      dest!: getNext_frame tx_Update_frame tx_Create_frame)

lemma create_body_item:
  "create_body seqRef ref w tx item = (r, w', tx', item') \<Longrightarrow>
     item' = item \<or> (\<exists>n. item' = item\<lparr>Sku := n\<rparr>)"
  by (auto simp: create_body_def Let_def split: prod.splits sum.splits option.splits)

lemma create_body_success:
  "create_body seqRef ref w [] item = (None, w', tx', item') \<Longrightarrow>
     \<exists>n d. map_of (docs w) seqRef = Some d \<and> map_of d nextField = Some (IntegerValue n) \<and>
       item' = item\<lparr>Sku := n\<rparr> \<and>
       tx' = [TxGet seqRef, TxUpdate seqRef [(nextField, IntegerValue (n + 1))],
              TxCreate ref (item_doc item')]"
  by (auto simp: create_body_def Let_def tx_Update_def tx_Create_def
      split: prod.splits sum.splits option.splits dest!: getNext_Inr)

lemma create_cases:
  assumes "create c w ref item = (r, w', item')"
  shows "(\<exists>s. item' = item\<lparr>Sku := s\<rparr>) \<and> (case r of
        Some e \<Rightarrow> docs w' = docs w
      | None \<Rightarrow> (\<exists>w0 item0 w1 tx. docs w0 = docs w \<and> (\<exists>s. item0 = item\<lparr>Sku := s\<rparr>) \<and>
            create_body (util c, skuDoc) ref w0 [] item0 = (None, w1, tx, item') \<and>
            apply_writes (docs w) tx = Inr (docs w')))"
proof -
  let ?I = "\<lambda>i. \<exists>s. i = item\<lparr>Sku := s\<rparr>"
  have i0: "?I item" by (rule exI[of _ "Sku item"]) simp
  have run: "RunTransaction_attempts DefaultTransactionMaxAttempts None
      (create_body (util c, skuDoc) ref) w item = (r, w', item')"
    using assms by (simp add: create_def RunTransaction_def)
  have inv: "\<And>w tx l r w' tx' l'. ?I l \<Longrightarrow>
      create_body (util c, skuDoc) ref w tx l = (r, w', tx', l') \<Longrightarrow> ?I l'"
    by (auto dest!: create_body_item)
  have fr: "\<And>w tx l r w' tx' l'.
      create_body (util c, skuDoc) ref w tx l = (r, w', tx', l') \<Longrightarrow> docs w' = docs w"
    by (auto dest!: create_body_frame)
  from RunTransaction_attempts_cases[of "create_body (util c, skuDoc) ref" ?I, OF fr inv i0 run]
  show ?thesis
    by (cases r) (auto simp: DefaultTransactionMaxAttempts_def)
qed

lemma create_success:
  assumes "create c w ref item = (None, w', item')"
  shows "\<exists>n d w0 item0 w1.
      map_of (docs w) (util c, skuDoc) = Some d \<and> map_of d nextField = Some (IntegerValue n) \<and>
      docs w0 = docs w \<and>
      create_body (util c, skuDoc) ref w0 [] item0 =
        (None, w1, [TxGet (util c, skuDoc),
                    TxUpdate (util c, skuDoc) [(nextField, IntegerValue (n + 1))],
                    TxCreate ref (item_doc item')], item') \<and>
      item' = item\<lparr>Sku := n\<rparr> \<and>
      map_of (docs w) ref = None \<and>
      docs w' = AList.update ref (item_doc item')
        (AList.update (util c, skuDoc) (AList.update nextField (IntegerValue (n + 1)) d) (docs w))"
proof -
  from create_cases[OF assms] obtain w0 item0 w1 tx s where
    d0: "docs w0 = docs w" and it0: "item0 = item\<lparr>Sku := s\<rparr>" and
    body: "create_body (util c, skuDoc) ref w0 [] item0 = (None, w1, tx, item')" and
    aw: "apply_writes (docs w) tx = Inr (docs w')"
    by auto
  from create_body_success[OF body] d0 obtain n d where
    cnt: "map_of (docs w) (util c, skuDoc) = Some d" "map_of d nextField = Some (IntegerValue n)" and
    it': "item' = item0\<lparr>Sku := n\<rparr>" and
    tx: "tx = [TxGet (util c, skuDoc), TxUpdate (util c, skuDoc) [(nextField, IntegerValue (n + 1))],
               TxCreate ref (item_doc item')]"
    by auto
  from it' it0 have item': "item' = item\<lparr>Sku := n\<rparr>" by simp
  from aw tx cnt have absent: "map_of (docs w) ref = None" and
    final: "docs w' = AList.update ref (item_doc item')
        (AList.update (util c, skuDoc) (AList.update nextField (IntegerValue (n + 1)) d) (docs w))"
    by (auto simp: set_fields_single update_conv' split: option.splits if_splits)
  from cnt d0 body tx item' absent final show ?thesis by blast
qed

lemma create_failure: "create c w ref item = (Some e, w', item') \<Longrightarrow> docs w' = docs w"
  using create_cases[of c w ref item "Some e" w' item'] by simp

lemmas run_defs = create_def RunTransaction_def DefaultTransactionMaxAttempts_def
  create_body_def getNext_def tx_Get_def tx_Update_def tx_Create_def Commit_def call_def
  DataAt_def item_doc_def set_fields_def skuDoc_def nextField_def startSKU_def Let_def
  eval_nat_numeral Client_startSKU_def startSKU_body_def log_Printf_def log_Println_def

lemmas shop_defs = shop_def fresh_def seeded_def spoon_def spork_def one_spoon_def
  spoon_and_spork_def sold_out_def

lemma create_spoon:
  "create shop seeded (''items'', ''a'') \<lparr>ID = ''a'', Name = ''spoon'', Sku = 0\<rparr> =
     (None, one_spoon, spoon)"
  by (simp add: run_defs shop_defs)

text \<open>
  C1. A call of \<open>create\<close> that succeeds has run, in one transaction, a body that read the
  counter document through the transaction and found the value \<open>n\<close> in its field
  \<open>next\<close>, set the item's \<open>Sku\<close> to \<open>n\<close>, staged the update of \<open>next\<close> to \<open>n + 1\<close> on that
  same document, and then staged the creation of the item's document, which asks that
  the document does not exist yet: the read comes first, then the two writes. The commit
  applied exactly these two writes to the database the call started from, and the
  item's document was not there before.
\<close>

theorem create_one_transaction:
  assumes "create c w ref item = (None, w', item')"
  shows "\<exists>n d w0 item0 w1.
      map_of (docs w) (util c, skuDoc) = Some d \<and> map_of d nextField = Some (IntegerValue n) \<and>
      docs w0 = docs w \<and>
      create_body (util c, skuDoc) ref w0 [] item0 =
        (None, w1, [TxGet (util c, skuDoc),
                    TxUpdate (util c, skuDoc) [(nextField, IntegerValue (n + 1))],
                    TxCreate ref (item_doc item')], item') \<and>
      item' = item\<lparr>Sku := n\<rparr> \<and> Sku item' = n \<and>
      map_of (docs w) ref = None \<and>
      docs w' = AList.update ref (item_doc item')
        (AList.update (util c, skuDoc) (AList.update nextField (IntegerValue (n + 1)) d) (docs w))"
proof -
  from create_success[OF assms] obtain n d w0 item0 w1 where
    a: "map_of (docs w) (util c, skuDoc) = Some d" "map_of d nextField = Some (IntegerValue n)"
      "docs w0 = docs w"
      "create_body (util c, skuDoc) ref w0 [] item0 =
        (None, w1, [TxGet (util c, skuDoc),
                    TxUpdate (util c, skuDoc) [(nextField, IntegerValue (n + 1))],
                    TxCreate ref (item_doc item')], item')"
      "item' = item\<lparr>Sku := n\<rparr>" "map_of (docs w) ref = None"
      "docs w' = AList.update ref (item_doc item')
        (AList.update (util c, skuDoc) (AList.update nextField (IntegerValue (n + 1)) d) (docs w))"
    by blast
  from a(5) have "Sku item' = n" by simp
  with a show ?thesis by blast
qed

theorem create_one_transaction_witness:
  "create shop seeded (''items'', ''a'') \<lparr>ID = ''a'', Name = ''spoon'', Sku = 0\<rparr> =
     (None, one_spoon, spoon) \<and>
   (\<exists>n d w0 item0 w1.
      map_of (docs seeded) (util shop, skuDoc) = Some d \<and>
      map_of d nextField = Some (IntegerValue n) \<and>
      docs w0 = docs seeded \<and>
      create_body (util shop, skuDoc) (''items'', ''a'') w0 [] item0 =
        (None, w1, [TxGet (util shop, skuDoc),
                    TxUpdate (util shop, skuDoc) [(nextField, IntegerValue (n + 1))],
                    TxCreate (''items'', ''a'') (item_doc spoon)], spoon) \<and>
      spoon = \<lparr>ID = ''a'', Name = ''spoon'', Sku = 0\<rparr>\<lparr>Sku := n\<rparr> \<and> Sku spoon = n \<and>
      map_of (docs seeded) (''items'', ''a'') = None \<and>
      docs one_spoon = AList.update (''items'', ''a'') (item_doc spoon)
        (AList.update (util shop, skuDoc) (AList.update nextField (IntegerValue (n + 1)) d)
           (docs seeded)))"
  using create_one_transaction[OF create_spoon] create_spoon by simp

section \<open>Properties of the counter\<close>

lemma startSKU_body_frame:
  "startSKU_body ref w tx u = (r, w', tx', u') \<Longrightarrow> docs w' = docs w"
  by (auto simp: startSKU_body_def Let_def log_Printf_def log_Println_def
      split: prod.splits sum.splits option.splits if_splits fsvalue.splits
      dest!: tx_Get_frame tx_Create_frame)

lemma startSKU_body_success:
  assumes "startSKU_body ref w [] u = (None, w1, tx, u')"
  shows "(tx = [TxGet ref] \<and>
          (\<exists>d v. map_of (docs w) ref = Some d \<and> map_of d nextField = Some (IntegerValue v)))
       \<or> apply_writes (docs w) tx = (case map_of (docs w) ref of
             Some old \<Rightarrow> Inl (Status AlreadyExists)
           | None \<Rightarrow> Inr (AList.update ref [(nextField, IntegerValue startSKU)] (docs w)))"
  using assms
  by (auto simp: startSKU_body_def Let_def log_Printf_def log_Println_def tx_Get_def tx_Create_def DataAt_def
      split: prod.splits sum.splits option.splits if_splits fsvalue.splits dest!: call_frame)

lemma startSKU_body_no_write:
  assumes "startSKU_body ref w [] u = (r, w1, tx, u')"
      and "map_of (docs w) ref \<noteq> None" and "fst (call w) \<noteq> Some (Status NotFound)"
  shows "\<not> list_ex is_write tx"
proof -
  obtain b w0 where c: "call w = (b, w0)" by (cases "call w")
  from call_frame[OF c] have d: "docs w0 = docs w" by simp
  from call_error[of w _ w0] c assms(3) have nf: "\<And>e. b = Some e \<Longrightarrow> status_Code e \<noteq> NotFound"
    by (metis fst_conv)
  from assms(1,2) c d nf show ?thesis
    by (auto simp: startSKU_body_def Let_def tx_Get_def DataAt_def
        split: prod.splits sum.splits option.splits if_splits fsvalue.splits)
qed

lemma Client_startSKU_cases:
  assumes "Client_startSKU c w = (r, w')"
  shows "case r of
      Some e \<Rightarrow> docs w' = docs w
    | None \<Rightarrow> (docs w' = docs w \<and>
          (\<exists>d v. map_of (docs w) (util c, skuDoc) = Some d \<and>
             map_of d nextField = Some (IntegerValue v)))
        \<or> (map_of (docs w) (util c, skuDoc) = None \<and>
            docs w' = AList.update (util c, skuDoc) [(nextField, IntegerValue startSKU)] (docs w))"
proof -
  let ?ref = "(util c, skuDoc)"
  obtain u where run: "RunTransaction_attempts DefaultTransactionMaxAttempts None
      (startSKU_body ?ref) w () = (r, w', u)"
    using assms by (auto simp: Client_startSKU_def RunTransaction_def Let_def split: prod.splits)
  have fr: "\<And>w tx l r w' tx' l'.
      startSKU_body ?ref w tx l = (r, w', tx', l') \<Longrightarrow> docs w' = docs w"
    by (rule startSKU_body_frame)
  from RunTransaction_attempts_cases[of "startSKU_body ?ref" "\<lambda>u. True", OF fr _ _ run]
  have c: "case r of Some e \<Rightarrow> docs w' = docs w
      | None \<Rightarrow> (\<exists>w0 l0 w1 tx. docs w0 = docs w \<and>
             startSKU_body ?ref w0 [] l0 = (None, w1, tx, u) \<and>
             apply_writes (docs w) tx = Inr (docs w'))"
    by (auto simp: DefaultTransactionMaxAttempts_def split: option.splits)
  show ?thesis
  proof (cases r)
    case (Some e)
    with c show ?thesis by simp
  next
    case None
    with c obtain w0 l0 w1 tx where d0: "docs w0 = docs w" and
      body: "startSKU_body ?ref w0 [] l0 = (None, w1, tx, u)" and
      aw: "apply_writes (docs w) tx = Inr (docs w')" by auto
    from startSKU_body_success[OF body] d0 aw None show ?thesis
      by (auto split: option.splits)
  qed
qed

lemma Client_startSKU_frame: "docs (snd (Client_startSKU c w)) = docs w \<or>
    (map_of (docs w) (util c, skuDoc) = None \<and> fst (Client_startSKU c w) = None)"
proof -
  obtain r w' where run: "Client_startSKU c w = (r, w')" by (cases "Client_startSKU c w")
  from Client_startSKU_cases[OF run] show ?thesis
    unfolding run by (cases r) auto
qed

lemma Client_startSKU_served_absent:
  assumes "faults w = []" and "map_of (docs w) (util c, skuDoc) = None"
  shows "Client_startSKU c w =
    (None, w\<lparr>docs := AList.update (util c, skuDoc) [(nextField, IntegerValue startSKU)] (docs w),
             logs := logs w @ [(''no SKU doc, adding it'', [])]\<rparr>)"
  using assms
  by (simp add: Client_startSKU_def RunTransaction_def DefaultTransactionMaxAttempts_def
      eval_nat_numeral startSKU_body_def tx_Get_def tx_Create_def call_def log_Printf_def
      log_Println_def
      Commit_def Let_def)

lemma Client_startSKU_served_present:
  assumes "faults w = []" and "map_of (docs w) (util c, skuDoc) = Some d"
      and "map_of d nextField = Some (IntegerValue v)"
  shows "startSKU_body (util c, skuDoc) w [] () =
        (None, w\<lparr>logs := logs w @ [(''started SKU, %s = %v'', [LogS nextField, LogD v])]\<rparr>,
         [TxGet (util c, skuDoc)], ())
    \<and> Client_startSKU c w =
        (None, w\<lparr>logs := logs w @ [(''started SKU, %s = %v'', [LogS nextField, LogD v])]\<rparr>)"
  using assms
  by (simp add: Client_startSKU_def RunTransaction_def DefaultTransactionMaxAttempts_def
      eval_nat_numeral startSKU_body_def tx_Get_def tx_Create_def call_def log_Printf_def
      log_Println_def
      Commit_def Let_def DataAt_def)

lemma Client_startSKU_malformed:
  assumes "map_of (docs w) (util c, skuDoc) = Some d"
      and "\<forall>v. map_of d nextField \<noteq> Some (IntegerValue v)"
  shows "\<exists>e w'. Client_startSKU c w = (Some e, w') \<and> docs w' = docs w"
proof -
  obtain r w' where run: "Client_startSKU c w = (r, w')" by (cases "Client_startSKU c w")
  from Client_startSKU_cases[OF run] assms show ?thesis
    using run by (cases r) auto
qed

lemma NewClient_malformed:
  assumes "map_of (docs w) (utilName, skuDoc) = Some d"
      and "\<forall>v. map_of d nextField \<noteq> Some (IntegerValue v)"
  shows "\<exists>e w'. NewClient project dataName utilName w = (Inl e, w') \<and> docs w' = docs w"
proof (cases "project = []")
  case True
  then show ?thesis by (simp add: NewClient_def)
next
  case False
  obtain b w1 where cl: "call w = (b, w1)" by (cases "call w")
  note d1 = call_frame[OF cl]
  show ?thesis
  proof (cases b)
    case (Some e)
    with False cl d1 show ?thesis by (simp add: NewClient_def)
  next
    case None
    from Client_startSKU_malformed[of w1 "\<lparr>data = dataName, util = utilName\<rparr>" d] assms d1
    obtain e w' where
      "Client_startSKU \<lparr>data = dataName, util = utilName\<rparr> w1 = (Some e, w')" "docs w' = docs w"
      by auto
    with False cl None show ?thesis by (simp add: NewClient_def)
  qed
qed

lemma create_success_next:
  assumes "create c w ref item = (None, w', item')"
  shows "\<exists>n. next_value c w = Some n \<and> next_value c w' = Some (n + 1) \<and> item' = item\<lparr>Sku := n\<rparr>"
proof -
  from create_success[OF assms] obtain n d where
    a: "map_of (docs w) (util c, skuDoc) = Some d" "map_of d nextField = Some (IntegerValue n)"
       "item' = item\<lparr>Sku := n\<rparr>" "map_of (docs w) ref = None"
       "docs w' = AList.update ref (item_doc item')
        (AList.update (util c, skuDoc) (AList.update nextField (IntegerValue (n + 1)) d) (docs w))"
    by blast
  from a have ne: "ref \<noteq> (util c, skuDoc)" by auto
  from a ne show ?thesis
    by (auto simp: next_value_def update_conv')
qed

lemma create_failure_next:
  "create c w ref item = (Some e, w', item') \<Longrightarrow> next_value c w' = next_value c w"
  by (simp add: next_value_def create_failure)

lemma create_all_next:
  "next_value c w = Some n \<Longrightarrow> create_all c w calls = (w', created) \<Longrightarrow>
     next_value c w' = Some (n + of_nat (length created)) \<and>
     map Sku created = map (\<lambda>k. n + of_nat k) [0..<length created]"
proof (induction calls arbitrary: w n created)
  case Nil
  then show ?case by simp
next
  case (Cons rq rest)
  obtain r w1 item1 where cr: "create c w (fst rq) (snd rq) = (r, w1, item1)"
    by (cases "create c w (fst rq) (snd rq)")
  show ?case
  proof (cases r)
    case (Some e)
    with cr Cons.prems have rest: "create_all c w1 rest = (w', created)" by simp
    from create_failure_next[of c w "fst rq" "snd rq" e w1 item1] cr Some Cons.prems(1)
    have "next_value c w1 = Some n" by simp
    from Cons.IH[OF this rest] show ?thesis .
  next
    case None
    obtain items where rest: "create_all c w1 rest = (w', items)" and cre: "created = item1 # items"
      using cr None Cons.prems(2) by (auto split: prod.splits)
    from create_success_next[of c w "fst rq" "snd rq" w1 item1] cr None Cons.prems(1)
    have n1: "next_value c w1 = Some (n + 1)" and sk: "Sku item1 = n" by auto
    from Cons.IH[OF n1 rest]
    have ih: "next_value c w' = Some (n + 1 + of_nat (length items))"
      "map Sku items = map (\<lambda>k. n + 1 + of_nat k) [0..<length items]" by auto
    from ih sk cre show ?thesis
      by (simp add: map_upt_Suc add.assoc del: upt_Suc)
  qed
qed

text \<open>Adding one to a 64-bit signed integer below the largest one does not wrap.\<close>

lemma sint_succ:
  fixes n :: "64 word"
  assumes "sint n < 2 ^ 63 - 1"
  shows "sint (n + 1) = sint n + 1"
proof -
  have lo: "- (2 ^ 63) \<le> sint n" using sint_ge[of n] by simp
  have "sint (n + 1) = signed_take_bit 63 (sint n + 1)"
    by (simp add: sint_word_add[of n 1])
  also have "\<dots> = sint n + 1"
    using lo assms by (intro signed_take_bit_int_eq_self) auto
  finally show ?thesis .
qed

lemma sint_add_of_nat:
  fixes n :: "64 word"
  shows "sint n + int k < 2 ^ 63 \<Longrightarrow> sint (n + of_nat k) = sint n + int k"
proof (induction k)
  case 0
  then show ?case by simp
next
  case (Suc k)
  then have ih: "sint (n + of_nat k) = sint n + int k" by simp
  with Suc.prems have "sint (n + of_nat k) < 2 ^ 63 - 1" by simp
  from sint_succ[OF this] ih show ?case by (simp add: ac_simps)
qed

lemma Max_skus:
  fixes n :: "64 word"
  assumes "created \<noteq> []"
      and "map Sku created = map (\<lambda>k. n + of_nat k) [0..<length created]"
      and "sint n + int (length created) < 2 ^ 63"
  shows "sint (n + of_nat (length created)) = 1 + Max (sint ` Sku ` set created)"
proof -
  let ?K = "length created"
  have "Sku ` set created = set (map Sku created)" by simp
  also have "\<dots> = (\<lambda>k. n + of_nat k) ` {0..<?K}" using assms(2) by simp
  finally have "sint ` Sku ` set created = (\<lambda>k. sint (n + of_nat k)) ` {0..<?K}"
    by (simp add: image_image)
  also have "\<dots> = (\<lambda>k. sint n + int k) ` {0..<?K}"
    using assms(3) by (intro image_cong refl sint_add_of_nat) auto
  finally have eq: "sint ` Sku ` set created = (\<lambda>k. sint n + int k) ` {0..<?K}" .
  have K: "0 < ?K" using assms(1) by simp
  have "Max ((\<lambda>k. sint n + int k) ` {0..<?K}) = sint n + int (?K - 1)"
    using K by (intro Max_eqI) auto
  moreover have "1 + int (?K - 1) = int ?K" using K by linarith
  ultimately have "1 + Max (sint ` Sku ` set created) = sint n + int ?K" using eq by simp
  with sint_add_of_nat[OF assms(3)] show ?thesis by simp
qed

lemma startSKU_fresh: "Client_startSKU shop fresh = (None, seeded)"
  by (simp add: run_defs shop_defs)

lemma create_all_spoon_spork:
  "create_all shop seeded
     [((''items'', ''a''), \<lparr>ID = ''a'', Name = ''spoon'', Sku = 0\<rparr>),
      ((''items'', ''a''), \<lparr>ID = ''a'', Name = ''spork'', Sku = 0\<rparr>),
      ((''items'', ''b''), \<lparr>ID = ''b'', Name = ''spork'', Sku = 0\<rparr>)] =
   (spoon_and_spork, [spoon, spork])"
  by (simp add: run_defs shop_defs)

text \<open>
  C2. Let \<open>startSKU\<close> succeed on any database, and then run any calls of \<open>create\<close>, some
  of which may fail. The initialized database has a counter \<open>n0\<close>, which is the seed 1000
  when the counter document was not there before. After the run \<open>next\<close> is \<open>n0\<close> plus
  the number of creates that succeeded, and these were given the sequence numbers
  \<open>n0\<close>, \<open>n0 + 1\<close>, ... in order: with none created \<open>next\<close> is still \<open>n0\<close> (the seed 1000
  after a first initialization); otherwise \<open>next\<close> is one more than the largest sequence
  number given (as signed numbers, as long as the 64-bit counter has not wrapped around).
  In any state a create that succeeds moves \<open>next\<close> from \<open>n\<close> to \<open>n + 1\<close>, and a create
  that fails (its transaction aborted) leaves the database, and so \<open>next\<close>, as it was.
\<close>

theorem next_is_one_past_the_sequences:
  assumes "Client_startSKU c w00 = (None, w0)"
      and "create_all c w0 calls = (w', created)"
  shows "\<exists>n0. next_value c w0 = Some n0 \<and>
     (map_of (docs w00) (util c, skuDoc) = None \<longrightarrow> n0 = 1000) \<and>
     next_value c w' = Some (n0 + of_nat (length created)) \<and>
     map Sku created = map (\<lambda>k. n0 + of_nat k) [0..<length created] \<and>
     (created = [] \<longrightarrow> next_value c w' = Some n0) \<and>
     (created \<noteq> [] \<and> sint n0 + int (length created) < 2 ^ 63 \<longrightarrow>
        sint (n0 + of_nat (length created)) = 1 + Max (sint ` Sku ` set created)) \<and>
     (\<forall>w ref item w1 item1. create c w ref item = (None, w1, item1) \<longrightarrow>
        (\<exists>n. next_value c w = Some n \<and> Sku item1 = n \<and> next_value c w1 = Some (n + 1) \<and>
           (sint n < 2 ^ 63 - 1 \<longrightarrow> sint (n + 1) = sint n + 1))) \<and>
     (\<forall>w ref item e w1 item1. create c w ref item = (Some e, w1, item1) \<longrightarrow>
        docs w1 = docs w \<and> next_value c w1 = next_value c w)"
proof -
  from Client_startSKU_cases[OF assms(1)]
  obtain n0 where n0: "next_value c w0 = Some n0"
    and seed: "map_of (docs w00) (util c, skuDoc) = None \<longrightarrow> n0 = 1000"
    by (auto simp: next_value_def update_conv' startSKU_def)
  from create_all_next[OF n0 assms(2)]
  have nx: "next_value c w' = Some (n0 + of_nat (length created))"
    and sk: "map Sku created = map (\<lambda>k. n0 + of_nat k) [0..<length created]"
    by auto
  have empty: "created = [] \<longrightarrow> next_value c w' = Some n0"
    using nx by auto
  have mx: "created \<noteq> [] \<and> sint n0 + int (length created) < 2 ^ 63 \<longrightarrow>
        sint (n0 + of_nat (length created)) = 1 + Max (sint ` Sku ` set created)"
    using Max_skus[OF _ sk] by blast
  have step: "\<forall>w ref item w1 item1. create c w ref item = (None, w1, item1) \<longrightarrow>
        (\<exists>n. next_value c w = Some n \<and> Sku item1 = n \<and> next_value c w1 = Some (n + 1) \<and>
           (sint n < 2 ^ 63 - 1 \<longrightarrow> sint (n + 1) = sint n + 1))"
  proof (intro allI impI)
    fix w ref item w1 item1
    assume "create c w ref item = (None, w1, item1)"
    from create_success_next[OF this] obtain n where
      "next_value c w = Some n" "next_value c w1 = Some (n + 1)" "item1 = item\<lparr>Sku := n\<rparr>"
      by blast
    then show "\<exists>n. next_value c w = Some n \<and> Sku item1 = n \<and> next_value c w1 = Some (n + 1) \<and>
           (sint n < 2 ^ 63 - 1 \<longrightarrow> sint (n + 1) = sint n + 1)"
      using sint_succ by (intro exI[of _ n]) simp
  qed
  have abort: "\<forall>w ref item e w1 item1. create c w ref item = (Some e, w1, item1) \<longrightarrow>
        docs w1 = docs w \<and> next_value c w1 = next_value c w"
    using create_failure create_failure_next by blast
  show ?thesis
    by (rule exI[of _ n0], intro conjI) (fact n0 seed nx sk empty mx step abort)+
qed

theorem next_is_one_past_the_sequences_witness:
  "Client_startSKU shop fresh = (None, seeded) \<and>
   create_all shop seeded
     [((''items'', ''a''), \<lparr>ID = ''a'', Name = ''spoon'', Sku = 0\<rparr>),
      ((''items'', ''a''), \<lparr>ID = ''a'', Name = ''spork'', Sku = 0\<rparr>),
      ((''items'', ''b''), \<lparr>ID = ''b'', Name = ''spork'', Sku = 0\<rparr>)] =
     (spoon_and_spork, [spoon, spork]) \<and>
   next_value shop seeded = Some 1000 \<and>
   next_value shop spoon_and_spork = Some 1002 \<and>
   map Sku [spoon, spork] = [1000, 1001] \<and>
   sint (1002 :: 64 word) = 1 + Max (sint ` Sku ` set [spoon, spork])"
proof -
  have h1: "map_of (docs fresh) (util shop, skuDoc) = None" by (simp add: fresh_def)
  from next_is_one_past_the_sequences[OF startSKU_fresh create_all_spoon_spork] h1
  have t: "next_value shop seeded = Some 1000 \<and>
     next_value shop spoon_and_spork = Some (1000 + of_nat (length [spoon, spork])) \<and>
     map Sku [spoon, spork] = map (\<lambda>k. 1000 + of_nat k) [0..<length [spoon, spork]] \<and>
     ([spoon, spork] \<noteq> [] \<and> sint (1000 :: 64 word) + int (length [spoon, spork]) < 2 ^ 63 \<longrightarrow>
        sint (1000 + of_nat (length [spoon, spork]) :: 64 word) =
          1 + Max (sint ` Sku ` set [spoon, spork]))"
    by blast
  from t have a: "next_value shop seeded = Some 1000"
    "next_value shop spoon_and_spork = Some 1002" by simp_all
  from t have b: "map Sku [spoon, spork] = [1000, 1001]" by simp
  from t have c: "sint (1002 :: 64 word) = 1 + Max (sint ` Sku ` set [spoon, spork])" by simp
  from startSKU_fresh create_all_spoon_spork a b c show ?thesis by simp
qed

lemma NewClient_success:
  assumes "NewClient project dataName utilName w = (Inr c, w')"
  shows "project \<noteq> [] \<and> c = \<lparr>data = dataName, util = utilName\<rparr> \<and>
     (\<exists>n. next_value c w' = Some n)"
proof -
  let ?c = "\<lparr>data = dataName, util = utilName\<rparr>"
  obtain b w1 where cl: "call w = (b, w1)" by (cases "call w")
  obtain r w2 where st: "Client_startSKU ?c w1 = (r, w2)" by (cases "Client_startSKU ?c w1")
  have p: "project \<noteq> []"
  proof
    assume "project = []"
    with assms show False by (simp add: NewClient_def)
  qed
  have b: "b = None"
  proof (cases b)
    case (Some e)
    with assms p cl show ?thesis by (simp add: NewClient_def)
  qed simp
  have r: "r = None"
  proof (cases r)
    case (Some e)
    with assms p cl b st show ?thesis by (simp add: NewClient_def)
  qed simp
  from assms p cl b st r have eq: "c = ?c" "w' = w2" by (simp_all add: NewClient_def)
  from Client_startSKU_cases[OF st] r
  have "(\<exists>d v. map_of (docs w2) (util ?c, skuDoc) = Some d \<and>
           map_of d nextField = Some (IntegerValue v))"
    by (auto simp: update_conv')
  then have "\<exists>n. next_value ?c w2 = Some n" by (auto simp: next_value_def)
  with p eq show ?thesis by simp
qed

lemma startSKU_seeded_docs:
  "map_of (docs seeded) (util shop, skuDoc) = Some [(''next'', IntegerValue 1000)]"
  by (simp add: shop_defs skuDoc_def)

lemma garbled_docs:
  "map_of (docs garbled) (util shop, skuDoc) = Some [(''next'', StringValue ''1000'')]"
  by (simp add: shop_defs skuDoc_def garbled_def)

text \<open>
  C6. \<open>startSKU\<close> runs in a transaction of its own, and \<open>NewClient\<close> runs it once.
  When the counter document is absent, a run that succeeds has created it with
  \<open>next = 1000\<close> and changed nothing else, a run that fails has changed nothing, and the
  run succeeds when the store serves its calls. When the document is there with an
  integer in \<open>next\<close>, the database is left as it is whatever happens, the body stages no
  write (unless the store itself answers the read with \<open>NotFound\<close>), and the run succeeds
  when the store serves its calls. When the document is there and \<open>next\<close> is missing or
  not an integer, \<open>startSKU\<close> returns an error and \<open>NewClient\<close> returns no client. A
  client that \<open>NewClient\<close> returns has a counter with an integer in the database.
\<close>

theorem startSKU_seeds_or_checks:
  "(map_of (docs w) (util c, skuDoc) = None \<longrightarrow>
      (\<forall>w'. Client_startSKU c w = (None, w') \<longrightarrow>
         docs w' = AList.update (util c, skuDoc) [(nextField, IntegerValue 1000)] (docs w) \<and>
         next_value c w' = Some 1000) \<and>
      (\<forall>e w'. Client_startSKU c w = (Some e, w') \<longrightarrow> docs w' = docs w) \<and>
      (faults w = [] \<longrightarrow> fst (Client_startSKU c w) = None)) \<and>
   (\<forall>d v. map_of (docs w) (util c, skuDoc) = Some d \<and> map_of d nextField = Some (IntegerValue v) \<longrightarrow>
      docs (snd (Client_startSKU c w)) = docs w \<and>
      (\<forall>w0 r w1 tx. docs w0 = docs w \<and> fst (call w0) \<noteq> Some (Status NotFound) \<and>
         startSKU_body (util c, skuDoc) w0 [] () = (r, w1, tx, ()) \<longrightarrow> \<not> list_ex is_write tx) \<and>
      (faults w = [] \<longrightarrow> fst (Client_startSKU c w) = None)) \<and>
   (\<forall>d. map_of (docs w) (util c, skuDoc) = Some d \<and>
        (\<forall>v. map_of d nextField \<noteq> Some (IntegerValue v)) \<longrightarrow>
      (\<exists>e w'. Client_startSKU c w = (Some e, w') \<and> docs w' = docs w) \<and>
      (\<forall>project. \<exists>e w'. NewClient project (data c) (util c) w = (Inl e, w') \<and> docs w' = docs w)) \<and>
   (\<forall>project c' w'. NewClient project (data c) (util c) w = (Inr c', w') \<longrightarrow>
      c' = c \<and> (\<exists>n. next_value c w' = Some n))"
proof (intro conjI impI allI)
  fix w'
  assume a: "map_of (docs w) (util c, skuDoc) = None" "Client_startSKU c w = (None, w')"
  from Client_startSKU_cases[OF a(2)] a(1)
  show d: "docs w' = AList.update (util c, skuDoc) [(nextField, IntegerValue 1000)] (docs w)"
    by (simp add: startSKU_def)
  then show "next_value c w' = Some 1000"
    by (simp add: next_value_def update_conv')
next
  fix e w'
  assume "Client_startSKU c w = (Some e, w')"
  from Client_startSKU_cases[OF this] show "docs w' = docs w" by simp
next
  assume "map_of (docs w) (util c, skuDoc) = None" "faults w = []"
  then show "fst (Client_startSKU c w) = None"
    by (simp add: Client_startSKU_served_absent)
next
  fix d v
  assume a: "map_of (docs w) (util c, skuDoc) = Some d \<and> map_of d nextField = Some (IntegerValue v)"
  with Client_startSKU_frame[of c w] show "docs (snd (Client_startSKU c w)) = docs w" by auto
  {
    fix w0 r w1 tx
    assume b: "docs w0 = docs w \<and> fst (call w0) \<noteq> Some (Status NotFound) \<and>
         startSKU_body (util c, skuDoc) w0 [] () = (r, w1, tx, ())"
    with a startSKU_body_no_write[of "(util c, skuDoc)" w0 "()" r w1 tx "()"]
    show "\<not> list_ex is_write tx" by simp
  }
  {
    assume "faults w = []"
    with a Client_startSKU_served_present[of w c d v]
    show "fst (Client_startSKU c w) = None" by simp
  }
next
  fix d
  assume a: "map_of (docs w) (util c, skuDoc) = Some d \<and>
        (\<forall>v. map_of d nextField \<noteq> Some (IntegerValue v))"
  then show "\<exists>e w'. Client_startSKU c w = (Some e, w') \<and> docs w' = docs w"
    using Client_startSKU_malformed[of w c d] by simp
  fix project
  from a show "\<exists>e w'. NewClient project (data c) (util c) w = (Inl e, w') \<and> docs w' = docs w"
    using NewClient_malformed[of w "util c" d project "data c"] by simp
next
  fix project c' w'
  assume "NewClient project (data c) (util c) w = (Inr c', w')"
  from NewClient_success[OF this]
  have "c' = \<lparr>data = data c, util = util c\<rparr>" "\<exists>n. next_value c' w' = Some n" by auto
  moreover have "\<lparr>data = data c, util = util c\<rparr> = c" by simp
  ultimately show "c' = c" "\<exists>n. next_value c w' = Some n" by auto
qed

theorem startSKU_seeds_or_checks_witness:
  "map_of (docs fresh) (util shop, skuDoc) = None \<and>
   Client_startSKU shop fresh = (None, seeded) \<and>
   next_value shop seeded = Some 1000 \<and>
   map_of (docs seeded) (util shop, skuDoc) = Some [(''next'', IntegerValue 1000)] \<and>
   faults seeded = [] \<and>
   fst (Client_startSKU shop seeded) = None \<and>
   docs (snd (Client_startSKU shop seeded)) = docs seeded \<and>
   map_of (docs garbled) (util shop, skuDoc) = Some [(''next'', StringValue ''1000'')] \<and>
   (\<exists>e w'. Client_startSKU shop garbled = (Some e, w') \<and> docs w' = docs garbled) \<and>
   (\<exists>e w'. NewClient ''tutor-dev'' (data shop) (util shop) garbled = (Inl e, w') \<and>
      docs w' = docs garbled)"
proof -
  have h1: "map_of (docs fresh) (util shop, skuDoc) = None" by (simp add: fresh_def)
  have f: "faults seeded = []" by (simp add: seeded_def)
  have nx: "map_of [(''next'', IntegerValue 1000)] nextField = Some (IntegerValue 1000)"
    by (simp add: nextField_def)
  have gx: "\<forall>v. map_of [(''next'', StringValue ''1000'')] nextField \<noteq> Some (IntegerValue v)"
    by (simp add: nextField_def)
  from startSKU_seeds_or_checks[of fresh shop, THEN conjunct1] h1 startSKU_fresh
  have a: "next_value shop seeded = Some 1000" by blast
  from startSKU_seeds_or_checks[of seeded shop, THEN conjunct2, THEN conjunct1]
    startSKU_seeded_docs nx f
  have b: "fst (Client_startSKU shop seeded) = None"
    "docs (snd (Client_startSKU shop seeded)) = docs seeded" by blast+
  from startSKU_seeds_or_checks[of garbled shop, THEN conjunct2, THEN conjunct2, THEN conjunct1]
    garbled_docs gx
  have c: "\<exists>e w'. Client_startSKU shop garbled = (Some e, w') \<and> docs w' = docs garbled"
    "\<exists>e w'. NewClient ''tutor-dev'' (data shop) (util shop) garbled = (Inl e, w') \<and>
      docs w' = docs garbled" by blast+
  from h1 startSKU_fresh a startSKU_seeded_docs f b garbled_docs c show ?thesis by simp
qed

section \<open>Properties of \<open>AddItem\<close>\<close>

lemma AddItem_cases:
  "AddItem c us w i = Some (res, us', w', i') \<Longrightarrow>
     Name i' = Name i \<and> (\<exists>u \<in> set us. ID i' = u) \<and>
     (case res of
        Inl e \<Rightarrow> status_Code e \<noteq> AlreadyExists \<and> docs w' = docs w
      | Inr u \<Rightarrow> u = ID i' \<and> (\<exists>w0 i0. docs w0 = docs w \<and> Name i0 = Name i \<and>
            create c w0 (data c, u) i0 = (None, w', i')))"
proof (induction us arbitrary: w i)
  case Nil
  then show ?case by simp
next
  case (Cons u us)
  let ?i1 = "i\<lparr>ID := u\<rparr>"
  obtain r w1 i2 where cr: "create c w (data c, u) ?i1 = (r, w1, i2)"
    by (cases "create c w (data c, u) ?i1")
  from create_cases[OF cr] obtain s where i2: "i2 = ?i1\<lparr>Sku := s\<rparr>" by blast
  show ?case
  proof (cases r)
    case None
    with cr Cons.prems have eq: "res = Inr (ID i2)" "w' = w1" "i' = i2" by (auto simp: Let_def)
    have "\<exists>w0 i0. docs w0 = docs w \<and> Name i0 = Name i \<and> create c w0 (data c, u) i0 = (None, w', i')"
      using cr None eq by (intro exI[of _ w] exI[of _ ?i1]) simp
    with eq i2 show ?thesis by simp
  next
    case (Some err)
    from create_failure[of c w "(data c, u)" ?i1 err w1 i2] cr Some have d1: "docs w1 = docs w" by simp
    show ?thesis
    proof (cases "status_Code err = AlreadyExists")
      case True
      with cr Some Cons.prems have "AddItem c us w1 i2 = Some (res, us', w', i')"
        by (simp add: Let_def)
      from Cons.IH[OF this] d1 i2 show ?thesis
        by (auto split: sum.splits)
    next
      case False
      with cr Some Cons.prems have "res = Inl err" "w' = w1" "i' = i2" by (auto simp: Let_def)
      with False d1 i2 show ?thesis by simp
    qed
  qed
qed

lemma create_body_again:
  assumes "create_body seqRef ref w [] item = (None, w1, tx, item1)"
      and "docs w2 = docs w"
      and "create_body seqRef ref w2 [] item1 = (None, w3, tx', item2)"
  shows "tx' = tx \<and> item2 = item1"
proof -
  from create_body_success[OF assms(1)] obtain n d where
    a: "map_of (docs w) seqRef = Some d" "map_of d nextField = Some (IntegerValue n)"
       "item1 = item\<lparr>Sku := n\<rparr>"
       "tx = [TxGet seqRef, TxUpdate seqRef [(nextField, IntegerValue (n + 1))],
              TxCreate ref (item_doc item1)]" by blast
  from create_body_success[OF assms(3)] obtain n' d' where
    b: "map_of (docs w2) seqRef = Some d'" "map_of d' nextField = Some (IntegerValue n')"
       "item2 = item1\<lparr>Sku := n'\<rparr>"
       "tx' = [TxGet seqRef, TxUpdate seqRef [(nextField, IntegerValue (n' + 1))],
              TxCreate ref (item_doc item2)]" by blast
  from a b assms(2) have "n' = n" by simp
  with a b show ?thesis by simp
qed

lemma AddItem_flaky:
  "AddItem shop [''a''] flaky \<lparr>ID = [], Name = ''spoon'', Sku = 0\<rparr> =
     Some (Inl (Status Unavailable), [], flaky\<lparr>faults := []\<rparr>, spoon)"
  by (simp add: run_defs shop_defs flaky_def)

lemma create_body_spoon:
  "create_body (util shop, skuDoc) (''items'', ''a'') seeded []
       \<lparr>ID = ''a'', Name = ''spoon'', Sku = 0\<rparr> =
     (None, seeded,
      [TxGet (''util'', ''Next$SKU''),
       TxUpdate (''util'', ''Next$SKU'') [(''next'', IntegerValue 1001)],
       TxCreate (''items'', ''a'') (item_doc spoon)], spoon) \<and>
   create_body (util shop, skuDoc) (''items'', ''a'') seeded [] spoon =
     (None, seeded,
      [TxGet (''util'', ''Next$SKU''),
       TxUpdate (''util'', ''Next$SKU'') [(''next'', IntegerValue 1001)],
       TxCreate (''items'', ''a'') (item_doc spoon)], spoon)"
  by (simp add: run_defs shop_defs)

text \<open>
  C3, as the claim states it, fails: the store serves the calls of the transaction body
  and then refuses the commit with \<open>Unavailable\<close>. \<open>AddItem\<close> returns that error, and
  the caller's record, which had no identifier and the sequence number 0, is left with
  the identifier \<open>a\<close> and the sequence number 1000.
\<close>

theorem caller_record_changed_on_error:
  "AddItem shop [''a''] flaky \<lparr>ID = [], Name = ''spoon'', Sku = 0\<rparr> =
     Some (Inl (Status Unavailable), [], flaky\<lparr>faults := []\<rparr>,
           \<lparr>ID = ''a'', Name = ''spoon'', Sku = 1000\<rparr>)"
  by (simp add: run_defs shop_defs flaky_def)

text \<open>
  C3, amended. The transaction body changes nothing in the database before the commit:
  whenever \<open>AddItem\<close> or \<open>create\<close> returns an error, the database is as it was. The
  caller's record is written before the commit: \<open>AddItem\<close> puts each identifier it draws
  into \<open>ID\<close>, and the body puts the counter it read into \<open>Sku\<close>; so after an error the
  record's \<open>Name\<close> is unchanged, its \<open>ID\<close> is one of the identifiers drawn, and \<open>create\<close>
  and its body never change \<open>ID\<close> or \<open>Name\<close>. Running the body again from scratch on
  the same database stages the same operations and leaves the record as the first run
  left it.
\<close>

theorem create_writes_nothing_before_commit:
  "(\<forall>e us' w' i'. AddItem c us w i = Some (Inl e, us', w', i') \<longrightarrow>
      docs w' = docs w \<and> Name i' = Name i \<and> ID i' \<in> set us) \<and>
   (\<forall>ref e w' i'. create c w ref i = (Some e, w', i') \<longrightarrow>
      docs w' = docs w \<and> ID i' = ID i \<and> Name i' = Name i) \<and>
   (\<forall>seqRef ref tx r w1 tx1 i1. create_body seqRef ref w tx i = (r, w1, tx1, i1) \<longrightarrow>
      docs w1 = docs w \<and> ID i1 = ID i \<and> Name i1 = Name i) \<and>
   (\<forall>seqRef ref w1 tx1 i1 w2 w3 tx2 i2.
      create_body seqRef ref w [] i = (None, w1, tx1, i1) \<and> docs w2 = docs w \<and>
      create_body seqRef ref w2 [] i1 = (None, w3, tx2, i2) \<longrightarrow> tx2 = tx1 \<and> i2 = i1)"
proof (intro conjI allI impI)
  fix e us' w' i'
  assume a: "AddItem c us w i = Some (Inl e, us', w', i')"
  from AddItem_cases[OF a] show "docs w' = docs w" "Name i' = Name i" "ID i' \<in> set us" by auto
next
  fix ref e w' i'
  assume a: "create c w ref i = (Some e, w', i')"
  from create_cases[OF a] show "docs w' = docs w" "ID i' = ID i" "Name i' = Name i" by auto
next
  fix seqRef ref tx r w1 tx1 i1
  assume a: "create_body seqRef ref w tx i = (r, w1, tx1, i1)"
  from create_body_frame[OF a] show "docs w1 = docs w" by simp
  from create_body_item[OF a] show "ID i1 = ID i" "Name i1 = Name i" by auto
next
  fix seqRef ref w1 tx1 i1 w2 w3 tx2 i2
  assume a: "create_body seqRef ref w [] i = (None, w1, tx1, i1) \<and> docs w2 = docs w \<and>
      create_body seqRef ref w2 [] i1 = (None, w3, tx2, i2)"
  then show "tx2 = tx1" "i2 = i1" using create_body_again[of seqRef ref w i w1 tx1 i1 w2 w3 tx2 i2] by auto
qed

theorem create_writes_nothing_before_commit_witness:
  "AddItem shop [''a''] flaky \<lparr>ID = [], Name = ''spoon'', Sku = 0\<rparr> =
     Some (Inl (Status Unavailable), [], flaky\<lparr>faults := []\<rparr>, spoon) \<and>
   docs (flaky\<lparr>faults := []\<rparr>) = docs flaky \<and> Name spoon = ''spoon'' \<and> ID spoon \<in> set [''a''] \<and>
   create_body (util shop, skuDoc) (''items'', ''a'') seeded []
       \<lparr>ID = ''a'', Name = ''spoon'', Sku = 0\<rparr> =
     (None, seeded,
      [TxGet (''util'', ''Next$SKU''),
       TxUpdate (''util'', ''Next$SKU'') [(''next'', IntegerValue 1001)],
       TxCreate (''items'', ''a'') (item_doc spoon)], spoon) \<and>
   create_body (util shop, skuDoc) (''items'', ''a'') seeded [] spoon =
     (None, seeded,
      [TxGet (''util'', ''Next$SKU''),
       TxUpdate (''util'', ''Next$SKU'') [(''next'', IntegerValue 1001)],
       TxCreate (''items'', ''a'') (item_doc spoon)], spoon)"
  using create_writes_nothing_before_commit[of shop "[''a'']" flaky
      "\<lparr>ID = [], Name = ''spoon'', Sku = 0\<rparr>"]
    AddItem_flaky create_body_spoon by simp

lemma AddItem_never_AlreadyExists:
  "AddItem c us w i = Some (Inl e, us', w', i') \<Longrightarrow> status_Code e \<noteq> AlreadyExists"
  using AddItem_cases[of c us w i "Inl e" us' w' i'] by simp

text \<open>
  C4. \<open>AddItem\<close> never returns an error whose status is \<open>AlreadyExists\<close>. In a turn of
  its loop, when \<open>create\<close> fails with \<open>AlreadyExists\<close> the whole cycle is run again with
  the next identifier drawn; when \<open>create\<close> fails with any other error, \<open>AddItem\<close> returns
  that very error and draws no further identifier; when \<open>create\<close> succeeds, \<open>AddItem\<close>
  returns the identifier.
\<close>

theorem AddItem_retries_only_on_AlreadyExists:
  "(\<forall>e us' w' i'. AddItem c us w i = Some (Inl e, us', w', i') \<longrightarrow>
      status_Code e \<noteq> AlreadyExists) \<and>
   (\<forall>u rest err w1 i1.
      us = u # rest \<and> create c w (data c, u) (i\<lparr>ID := u\<rparr>) = (Some err, w1, i1) \<longrightarrow>
      AddItem c us w i =
        (if status_Code err = AlreadyExists then AddItem c rest w1 i1
         else Some (Inl err, rest, w1, i1))) \<and>
   (\<forall>u rest w1 i1.
      us = u # rest \<and> create c w (data c, u) (i\<lparr>ID := u\<rparr>) = (None, w1, i1) \<longrightarrow>
      AddItem c us w i = Some (Inr u, rest, w1, i1))"
proof (intro conjI allI impI)
  fix e us' w' i'
  assume "AddItem c us w i = Some (Inl e, us', w', i')"
  then show "status_Code e \<noteq> AlreadyExists" by (rule AddItem_never_AlreadyExists)
next
  fix u rest err w1 i1
  assume "us = u # rest \<and> create c w (data c, u) (i\<lparr>ID := u\<rparr>) = (Some err, w1, i1)"
  then show "AddItem c us w i =
        (if status_Code err = AlreadyExists then AddItem c rest w1 i1
         else Some (Inl err, rest, w1, i1))"
    by (simp add: Let_def)
next
  fix u rest w1 i1
  assume a: "us = u # rest \<and> create c w (data c, u) (i\<lparr>ID := u\<rparr>) = (None, w1, i1)"
  with create_cases[of c w "(data c, u)" "i\<lparr>ID := u\<rparr>" None w1 i1] have "ID i1 = u" by auto
  with a show "AddItem c us w i = Some (Inr u, rest, w1, i1)"
    by (simp add: Let_def)
qed

lemma create_collides:
  "create shop one_spoon (data shop, ''a'') (\<lparr>ID = [], Name = ''spork'', Sku = 0\<rparr>\<lparr>ID := ''a''\<rparr>) =
     (Some (Status AlreadyExists), one_spoon, \<lparr>ID = ''a'', Name = ''spork'', Sku = 1001\<rparr>)"
  by (simp add: run_defs shop_defs)

lemma create_unavailable:
  "create shop flaky (data shop, ''a'') (\<lparr>ID = [], Name = ''spork'', Sku = 0\<rparr>\<lparr>ID := ''a''\<rparr>) =
     (Some (Status Unavailable), flaky\<lparr>faults := []\<rparr>, \<lparr>ID = ''a'', Name = ''spork'', Sku = 1000\<rparr>)"
  by (simp add: run_defs shop_defs flaky_def)

lemma AddItem_second_id:
  "AddItem shop [''b''] one_spoon \<lparr>ID = ''a'', Name = ''spork'', Sku = 1001\<rparr> =
     Some (Inr ''b'', [], spoon_and_spork, spork)"
  by (simp add: run_defs shop_defs)

theorem AddItem_retries_only_on_AlreadyExists_witness:
  "create shop one_spoon (data shop, ''a'') (\<lparr>ID = [], Name = ''spork'', Sku = 0\<rparr>\<lparr>ID := ''a''\<rparr>) =
     (Some (Status AlreadyExists), one_spoon, \<lparr>ID = ''a'', Name = ''spork'', Sku = 1001\<rparr>) \<and>
   AddItem shop [''a'', ''b''] one_spoon \<lparr>ID = [], Name = ''spork'', Sku = 0\<rparr> =
     Some (Inr ''b'', [], spoon_and_spork, spork) \<and>
   create shop flaky (data shop, ''a'') (\<lparr>ID = [], Name = ''spork'', Sku = 0\<rparr>\<lparr>ID := ''a''\<rparr>) =
     (Some (Status Unavailable), flaky\<lparr>faults := []\<rparr>, \<lparr>ID = ''a'', Name = ''spork'', Sku = 1000\<rparr>) \<and>
   AddItem shop [''a'', ''b''] flaky \<lparr>ID = [], Name = ''spork'', Sku = 0\<rparr> =
     Some (Inl (Status Unavailable), [''b''], flaky\<lparr>faults := []\<rparr>,
           \<lparr>ID = ''a'', Name = ''spork'', Sku = 1000\<rparr>)"
proof -
  from AddItem_retries_only_on_AlreadyExists[of shop "[''a'', ''b'']" one_spoon
      "\<lparr>ID = [], Name = ''spork'', Sku = 0\<rparr>"] create_collides AddItem_second_id
  have a: "AddItem shop [''a'', ''b''] one_spoon \<lparr>ID = [], Name = ''spork'', Sku = 0\<rparr> =
     Some (Inr ''b'', [], spoon_and_spork, spork)" by simp
  from AddItem_retries_only_on_AlreadyExists[of shop "[''a'', ''b'']" flaky
      "\<lparr>ID = [], Name = ''spork'', Sku = 0\<rparr>"] create_unavailable
  have b: "AddItem shop [''a'', ''b''] flaky \<lparr>ID = [], Name = ''spork'', Sku = 0\<rparr> =
     Some (Inl (Status Unavailable), [''b''], flaky\<lparr>faults := []\<rparr>,
           \<lparr>ID = ''a'', Name = ''spork'', Sku = 1000\<rparr>)" by simp
  from a b create_collides create_unavailable show ?thesis by simp
qed

section \<open>Properties of the other operations\<close>

lemma DataTo_item_doc: "DataTo (item_doc i) = Inr i"
  by (simp add: DataTo_def item_doc_def string_field_def int_field_def)

lemma UpdateItem_cases:
  assumes "UpdateItem c w i = (r, w')"
  shows "case r of
      Some e \<Rightarrow> docs w' = docs w
    | None \<Rightarrow> (\<exists>old. map_of (docs w) (data c, ID i) = Some old) \<and>
        docs w' = AList.update (data c, ID i) (item_doc i) (docs w)"
proof -
  obtain g w1 where g: "doc_Get w (data c, ID i) = (g, w1)" by (cases "doc_Get w (data c, ID i)")
  then have d1: "docs w1 = docs w"
    by (auto simp: doc_Get_def split: prod.splits option.splits dest: call_frame)
  show ?thesis
  proof (cases g)
    case (Inl err)
    with g assms d1 show ?thesis by (auto simp: UpdateItem_def Let_def split: if_splits)
  next
    case (Inr old)
    with g have ex: "map_of (docs w) (data c, ID i) = Some old"
      by (auto simp: doc_Get_def split: prod.splits option.splits dest: call_frame)
    obtain s w2 where s: "doc_Set w1 (data c, ID i) (item_doc i) = (s, w2)"
      by (cases "doc_Set w1 (data c, ID i) (item_doc i)")
    then have d2: "case s of Some e \<Rightarrow> docs w2 = docs w1
        | None \<Rightarrow> docs w2 = AList.update (data c, ID i) (item_doc i) (docs w1)"
      by (auto simp: doc_Set_def split: prod.splits option.splits dest: call_frame)
    from assms g Inr s have "r = s" "w' = w2"
      by (auto simp: UpdateItem_def Let_def split: option.splits)
    with d1 d2 ex show ?thesis by (auto split: option.splits)
  qed
qed

lemma UpdateItem_ladle:
  "UpdateItem shop one_spoon \<lparr>ID = ''a'', Name = ''ladle'', Sku = 0\<rparr> = (None, relabelled)"
  by (simp add: UpdateItem_def doc_Get_def doc_Set_def call_def item_doc_def shop_defs
      relabelled_def Let_def)

text \<open>
  C5, as the claim states it, fails: the record \<open>a\<close> is stored with the sequence number
  1000; \<open>UpdateItem\<close> with a record that carries the sequence number 0 (what the \<open>put\<close>
  handler passes on when the request body names no \<open>sku\<close>) succeeds, and the stored
  sequence number is 0 afterwards.
\<close>

theorem UpdateItem_overwrites_sku:
  "GetItem shop one_spoon ''a'' = (Inr \<lparr>ID = ''a'', Name = ''spoon'', Sku = 1000\<rparr>, one_spoon) \<and>
   UpdateItem shop one_spoon \<lparr>ID = ''a'', Name = ''ladle'', Sku = 0\<rparr> = (None, relabelled) \<and>
   GetItem shop relabelled ''a'' = (Inr \<lparr>ID = ''a'', Name = ''ladle'', Sku = 0\<rparr>, relabelled)"
  by (simp add: UpdateItem_def GetItem_def doc_Get_def doc_Set_def call_def item_doc_def shop_defs relabelled_def
      Let_def DataTo_def string_field_def int_field_def)

text \<open>
  C5, amended. \<open>UpdateItem\<close> succeeds only on a record that exists, and then stores the
  caller's record in its place (\<open>Set\<close> overwrites the document): the stored sequence
  number afterwards is the one the caller supplied, so it is the one before the update
  exactly when the caller passes that one back, and the stored document decodes to the
  caller's record. No other document, the counter among them, is changed.
\<close>

theorem UpdateItem_stores_callers_record:
  assumes "UpdateItem c w i = (None, w')"
  shows "(\<exists>old. map_of (docs w) (data c, ID i) = Some old) \<and>
     docs w' = AList.update (data c, ID i) (item_doc i) (docs w) \<and>
     map_of (docs w') (data c, ID i) = Some (item_doc i) \<and>
     DataTo (item_doc i) = Inr i \<and>
     map_of (item_doc i) ''sku'' = Some (IntegerValue (Sku i)) \<and>
     (\<forall>r. r \<noteq> (data c, ID i) \<longrightarrow> map_of (docs w') r = map_of (docs w) r)"
proof -
  from UpdateItem_cases[OF assms]
  have a: "\<exists>old. map_of (docs w) (data c, ID i) = Some old"
    and b: "docs w' = AList.update (data c, ID i) (item_doc i) (docs w)" by auto
  from b have c: "map_of (docs w') (data c, ID i) = Some (item_doc i)"
    and d: "\<forall>r. r \<noteq> (data c, ID i) \<longrightarrow> map_of (docs w') r = map_of (docs w) r"
    by (auto simp: update_conv')
  have e: "map_of (item_doc i) ''sku'' = Some (IntegerValue (Sku i))" by (simp add: item_doc_def)
  from a b c d e DataTo_item_doc show ?thesis by blast
qed
theorem UpdateItem_stores_callers_record_witness:
  "UpdateItem shop one_spoon \<lparr>ID = ''a'', Name = ''ladle'', Sku = 0\<rparr> = (None, relabelled) \<and>
   map_of (docs relabelled) (data shop, ''a'') = Some (item_doc \<lparr>ID = ''a'', Name = ''ladle'', Sku = 0\<rparr>) \<and>
   map_of (item_doc \<lparr>ID = ''a'', Name = ''ladle'', Sku = 0\<rparr>) ''sku'' = Some (IntegerValue 0)"
  using UpdateItem_stores_callers_record[OF UpdateItem_ladle] UpdateItem_ladle
  by (simp add: update_conv')

lemma call_served: "fst (call w) = None \<Longrightarrow> \<exists>w1. call w = (None, w1) \<and> docs w1 = docs w \<and> logs w1 = logs w"
  by (cases "call w") (auto dest: call_frame)

lemma ListItems_loop_eq:
  "ListItems_loop ds w acc = (acc @ decode_items ds, w\<lparr>logs := logs w @ decode_logs ds\<rparr>)"
proof (induction ds arbitrary: w acc)
  case Nil
  then show ?case by (simp add: decode_items_def decode_logs_def map_filter_simps)
next
  case (Cons d ds)
  show ?case
  proof (cases "DataTo (snd d)")
    case (Inl err)
    then show ?thesis
      by (simp add: Cons.IH decode_items_def decode_logs_def map_filter_simps log_Printf_def)
  next
    case (Inr i)
    then show ?thesis
      by (simp add: Cons.IH decode_items_def decode_logs_def map_filter_simps)
  qed
qed
lemma errors_Is_wraps: "errors_Is (ErrorfW f as e) e"
  by (cases e) auto

lemma query_none:
  assumes "\<forall>(r, d) \<in> set s. fst r = coll \<longrightarrow> \<not> cond d"
  shows "filter (\<lambda>(k, d). cond d) (collection_docs s coll) = []"
  using assms by (auto simp: collection_docs_def filter_empty_conv)

text \<open>
  C7. When the store serves the call and has no document with the identifier in the
  data collection, \<open>GetItem\<close> returns the error \<open>fmt.Errorf("%s: %w", id, ErrNotFound)\<close>,
  which wraps \<open>ErrNotFound\<close>. When the store serves the query and no document of the
  data collection has the sequence number in its field \<open>sku\<close>, \<open>GetItemBySKU\<close> returns
  \<open>fmt.Errorf("sku %d: %w", sku, ErrNotFound)\<close>, which wraps \<open>ErrNotFound\<close>. Neither
  changes the database.
\<close>

theorem not_found_contract:
  "(fst (call w) = None \<and> map_of (docs w) (data c, ident) = None \<longrightarrow>
      fst (GetItem c w ident) = Inl (ErrorfW ''%s: %w'' [ArgS ident] ErrNotFound) \<and>
      errors_Is (ErrorfW ''%s: %w'' [ArgS ident] ErrNotFound) ErrNotFound \<and>
      docs (snd (GetItem c w ident)) = docs w) \<and>
   (fst (call w) = None \<and>
      (\<forall>(r, d) \<in> set (docs w). fst r = data c \<longrightarrow> map_of d ''sku'' \<noteq> Some (IntegerValue sku)) \<longrightarrow>
      fst (GetItemBySKU c w sku) = Inl (ErrorfW ''sku %d: %w'' [ArgD sku] ErrNotFound) \<and>
      errors_Is (ErrorfW ''sku %d: %w'' [ArgD sku] ErrNotFound) ErrNotFound \<and>
      docs (snd (GetItemBySKU c w sku)) = docs w)"
proof (intro conjI impI)
  assume a: "fst (call w) = None \<and> map_of (docs w) (data c, ident) = None"
  then obtain w1 where c: "call w = (None, w1)" "docs w1 = docs w" using call_served by blast
  with a have g: "GetItem c w ident = (Inl (ErrorfW ''%s: %w'' [ArgS ident] ErrNotFound), w1)"
    by (simp add: GetItem_def doc_Get_def)
  from g show "fst (GetItem c w ident) = Inl (ErrorfW ''%s: %w'' [ArgS ident] ErrNotFound)" by simp
  from g c show "docs (snd (GetItem c w ident)) = docs w" by simp
  show "errors_Is (ErrorfW ''%s: %w'' [ArgS ident] ErrNotFound) ErrNotFound"
    by (rule errors_Is_wraps)
next
  assume a: "fst (call w) = None \<and>
      (\<forall>(r, d) \<in> set (docs w). fst r = data c \<longrightarrow> map_of d ''sku'' \<noteq> Some (IntegerValue sku))"
  then obtain w1 where c: "call w = (None, w1)" "docs w1 = docs w" using call_served by blast
  from a have "filter (\<lambda>(k, d). map_of d ''sku'' = Some (IntegerValue sku))
      (collection_docs (docs w) (data c)) = []"
    by (intro query_none) auto
  with c have g: "GetItemBySKU c w sku = (Inl (ErrorfW ''sku %d: %w'' [ArgD sku] ErrNotFound), w1)"
    by (simp add: GetItemBySKU_def query_GetAll_def)
  from g show "fst (GetItemBySKU c w sku) = Inl (ErrorfW ''sku %d: %w'' [ArgD sku] ErrNotFound)"
    by simp
  from g c show "docs (snd (GetItemBySKU c w sku)) = docs w" by simp
  show "errors_Is (ErrorfW ''sku %d: %w'' [ArgD sku] ErrNotFound) ErrNotFound"
    by (rule errors_Is_wraps)
qed

theorem not_found_contract_witness:
  "fst (call one_spoon) = None \<and> map_of (docs one_spoon) (data shop, ''nonexistent'') = None \<and>
   fst (GetItem shop one_spoon ''nonexistent'') =
     Inl (ErrorfW ''%s: %w'' [ArgS ''nonexistent''] ErrNotFound) \<and>
   fst (GetItemBySKU shop one_spoon 999999) = Inl (ErrorfW ''sku %d: %w'' [ArgD 999999] ErrNotFound) \<and>
   errors_Is (ErrorfW ''sku %d: %w'' [ArgD 999999] ErrNotFound) ErrNotFound"
proof -
  have h1: "fst (call one_spoon) = None" by (simp add: call_def one_spoon_def)
  have h2: "map_of (docs one_spoon) (data shop, ''nonexistent'') = None"
    by (simp add: one_spoon_def shop_def)
  have h3: "\<forall>(r, d) \<in> set (docs one_spoon). fst r = data shop \<longrightarrow>
      map_of d ''sku'' \<noteq> Some (IntegerValue 999999)"
    by (simp add: one_spoon_def shop_def)
  from not_found_contract[of one_spoon shop "''nonexistent''" 999999] h1 h2 h3
  show ?thesis by blast
qed

text \<open>
  C8. \<open>DeleteItem\<close> asks the store to delete the document, whether it is there or not.
  With the store serving the calls, deleting an identifier twice succeeds both times
  with no error; after the first call the document is gone, the second call leaves the
  database as the first left it, and deleting an identifier that was never there leaves
  the database as it was.
\<close>

theorem delete_idempotent:
  assumes "fst (call w) = None" and "DeleteItem c w ident = (r1, w1)"
      and "fst (call w1) = None" and "DeleteItem c w1 ident = (r2, w2)"
  shows "r1 = None \<and> r2 = None \<and>
     docs w1 = AList.delete (data c, ident) (docs w) \<and>
     map_of (docs w1) (data c, ident) = None \<and>
     docs w2 = docs w1 \<and>
     (map_of (docs w) (data c, ident) = None \<longrightarrow> docs w1 = docs w)"
proof -
  from call_served[OF assms(1)] obtain v1 where c1: "call w = (None, v1)" "docs v1 = docs w"
    by blast
  with assms(2) have a: "r1 = None" "docs w1 = AList.delete (data c, ident) (docs w)"
    by (auto simp: DeleteItem_def doc_Delete_def)
  from call_served[OF assms(3)] obtain v2 where c2: "call w1 = (None, v2)" "docs v2 = docs w1"
    by blast
  with assms(4) have b: "r2 = None" "docs w2 = AList.delete (data c, ident) (docs w1)"
    by (auto simp: DeleteItem_def doc_Delete_def)
  from a b have same: "docs w2 = docs w1" by (simp add: delete_idem)
  from a have gone: "map_of (docs w1) (data c, ident) = None" by (simp add: delete_conv')
  have absent: "map_of (docs w) (data c, ident) = None \<longrightarrow> docs w1 = docs w"
    using a by (auto simp: map_of_eq_None_iff)
  from a b same gone absent show ?thesis by blast
qed

theorem delete_idempotent_witness:
  "fst (call one_spoon) = None \<and>
   DeleteItem shop one_spoon ''a'' = (None, sold_out) \<and>
   fst (call sold_out) = None \<and>
   DeleteItem shop sold_out ''a'' = (None, sold_out) \<and>
   map_of (docs sold_out) (data shop, ''a'') = None \<and>
   docs sold_out = AList.delete (data shop, ''a'') (docs one_spoon)"
proof -
  have h1: "fst (call one_spoon) = None" by (simp add: call_def one_spoon_def)
  have h2: "DeleteItem shop one_spoon ''a'' = (None, sold_out)"
    by (simp add: DeleteItem_def doc_Delete_def call_def shop_defs sold_out_def)
  have h3: "fst (call sold_out) = None" by (simp add: call_def sold_out_def)
  have h4: "DeleteItem shop sold_out ''a'' = (None, sold_out)"
    by (simp add: DeleteItem_def doc_Delete_def call_def shop_defs sold_out_def)
  from delete_idempotent[OF h1 h2 h3 h4] h1 h2 h3 h4 show ?thesis by blast
qed

lemma mixed_scan: "collection_docs (docs mixed) (data shop) =
   [(''a'', [(''id'', StringValue ''a''), (''name'', StringValue ''spoon''),
       (''sku'', IntegerValue 1000)]),
    (''b'', [(''id'', StringValue ''b''), (''name'', StringValue ''spork''),
       (''sku'', StringValue ''1001'')])]"
  by (simp add: mixed_def shop_def collection_docs_def)

text \<open>
  C10. For every scan result the loop of \<open>ListItems\<close> gives the records of the documents
  that decode, in the order of the scan, and logs one line for each document that does
  not; it never gives an error. So \<open>ListItems\<close> returns these records with a nil error
  whenever the store serves the scan, and the only error it ever returns is the one of
  the scan itself.
\<close>

theorem ListItems_skips_undecodable:
  "ListItems_loop ds w [] = (decode_items ds, w\<lparr>logs := logs w @ decode_logs ds\<rparr>) \<and>
   (fst (call w) = None \<longrightarrow>
      fst (ListItems c w) = Inr (decode_items (collection_docs (docs w) (data c))) \<and>
      logs (snd (ListItems c w)) = logs w @ decode_logs (collection_docs (docs w) (data c)) \<and>
      docs (snd (ListItems c w)) = docs w) \<and>
   (\<forall>e. fst (ListItems c w) = Inl e \<longrightarrow> fst (call w) = Some e)"
proof (intro conjI impI allI)
  show "ListItems_loop ds w [] = (decode_items ds, w\<lparr>logs := logs w @ decode_logs ds\<rparr>)"
    by (simp add: ListItems_loop_eq)
next
  assume "fst (call w) = None"
  from call_served[OF this] obtain w1 where
    c: "call w = (None, w1)" "docs w1 = docs w" "logs w1 = logs w" by blast
  then have l: "ListItems c w = (Inr (decode_items (collection_docs (docs w) (data c))),
      w1\<lparr>logs := logs w @ decode_logs (collection_docs (docs w) (data c))\<rparr>)"
    by (simp add: ListItems_def query_GetAll_def ListItems_loop_eq)
  from l show "fst (ListItems c w) = Inr (decode_items (collection_docs (docs w) (data c)))" by simp
  from l show "logs (snd (ListItems c w)) = logs w @ decode_logs (collection_docs (docs w) (data c))"
    by simp
  from l c show "docs (snd (ListItems c w)) = docs w" by simp
next
  fix e
  assume "fst (ListItems c w) = Inl e"
  then show "fst (call w) = Some e"
    by (cases "call w") (auto simp: ListItems_def query_GetAll_def ListItems_loop_eq split: option.splits)
qed
theorem ListItems_skips_undecodable_witness:
  "fst (call mixed) = None \<and>
   fst (ListItems shop mixed) = Inr [spoon] \<and>
   logs (snd (ListItems shop mixed)) =
     [(''item %s decode: %s'', [LogS ''b'', LogE (Errorf ''firestore: cannot set type %s'' [ArgS ''sku''])])]"
proof -
  have h: "fst (call mixed) = None" by (simp add: call_def mixed_def)
  have d: "decode_items (collection_docs (docs mixed) (data shop)) = [spoon]"
    by (simp add: mixed_scan decode_items_def map_filter_simps DataTo_def string_field_def int_field_def spoon_def)
  have l: "decode_logs (collection_docs (docs mixed) (data shop)) =
     [(''item %s decode: %s'', [LogS ''b'', LogE (Errorf ''firestore: cannot set type %s'' [ArgS ''sku''])])]"
    by (simp add: mixed_scan decode_logs_def map_filter_simps DataTo_def string_field_def int_field_def)
  have l0: "logs mixed = []" by (simp add: mixed_def)
  from ListItems_skips_undecodable[of "[]" mixed shop] h d l l0 show ?thesis by simp
qed

section \<open>Sequence numbers of the stored records\<close>

lemma set_update_cases: "x \<in> set (AList.update k v al) \<Longrightarrow> x = (k, v) \<or> x \<in> set al"
  by (induction al) (auto split: if_splits)

lemma set_delete_subset: "x \<in> set (AList.delete k al) \<Longrightarrow> x \<in> set al"
  by (induction al) (auto split: if_splits)

lemma sequences_ok_mono: "sequences_ok c s m \<Longrightarrow> m \<le> m' \<Longrightarrow> sequences_ok c s m'"
  unfolding sequences_ok_def by fastforce

lemma GetItem_frame: "docs (snd (GetItem c w k)) = docs w"
  by (auto simp: GetItem_def doc_Get_def split: prod.splits option.splits sum.splits dest: call_frame)

lemma GetItemBySKU_frame: "docs (snd (GetItemBySKU c w sku)) = docs w"
  by (auto simp: GetItemBySKU_def query_GetAll_def log_Printf_def
      split: prod.splits option.splits sum.splits list.splits dest: call_frame)

lemma ListItems_frame: "docs (snd (ListItems c w)) = docs w"
  by (auto simp: ListItems_def query_GetAll_def ListItems_loop_eq
      split: prod.splits option.splits sum.splits dest: call_frame)

lemma DeleteItem_cases:
  "DeleteItem c w k = (r, w') \<Longrightarrow>
     (case r of Some e \<Rightarrow> docs w' = docs w | None \<Rightarrow> docs w' = AList.delete (data c, k) (docs w))"
  by (auto simp: DeleteItem_def doc_Delete_def split: prod.splits option.splits dest: call_frame)

lemma nextField_not_in_item: "map_of (item_doc i) nextField = None"
  by (simp add: item_doc_def nextField_def)

lemma sequences_ok_update:
  assumes "sequences_ok c s m" and "1000 \<le> sint (Sku i)"
  shows "sequences_ok c (AList.update (data c, ID i) (item_doc i) s) m"
  unfolding sequences_ok_def
proof (intro conjI ballI allI impI)
  fix x
  assume x: "x \<in> set (AList.update (data c, ID i) (item_doc i) s)"
  show "case x of (r, d) \<Rightarrow> fst r = data c \<and> r \<noteq> (util c, skuDoc) \<longrightarrow>
        (\<exists>i. DataTo d = Inr i \<and> 1000 \<le> sint (Sku i))"
  proof (cases "x \<in> set s")
    case True
    with assms(1) show ?thesis unfolding sequences_ok_def by blast
  next
    case False
    with set_update_cases[OF x] have "x = ((data c, ID i), item_doc i)" by simp
    with assms(2) DataTo_item_doc show ?thesis by auto
  qed
next
  fix d n
  assume a: "map_of (AList.update (data c, ID i) (item_doc i) s) (util c, skuDoc) = Some d \<and>
      map_of d nextField = Some (IntegerValue n)"
  show "1000 \<le> sint n" "sint n \<le> 1000 + m"
    using a assms(1) nextField_not_in_item[of i] unfolding sequences_ok_def
    by (auto simp: update_conv' split: if_splits)
qed

lemma sequences_ok_delete:
  assumes "sequences_ok c s m"
  shows "sequences_ok c (AList.delete k s) m"
  using assms unfolding sequences_ok_def
  by (auto simp: delete_conv' dest!: set_delete_subset split: if_splits)

lemma sequences_ok_create:
  assumes ok: "sequences_ok c s m" and "docs w = s" and cr: "create c w ref item = (None, w', item')"
      and bound: "1000 + m + 1 < 2 ^ 63"
  shows "sequences_ok c (docs w') (m + 1) \<and> 1000 \<le> sint (Sku item')"
proof -
  from create_success[OF cr] obtain n d where
    a: "map_of (docs w) (util c, skuDoc) = Some d" "map_of d nextField = Some (IntegerValue n)"
       "item' = item\<lparr>Sku := n\<rparr>" "map_of (docs w) ref = None"
       "docs w' = AList.update ref (item_doc item')
        (AList.update (util c, skuDoc) (AList.update nextField (IntegerValue (n + 1)) d) (docs w))"
    by blast
  from a have ne: "ref \<noteq> (util c, skuDoc)" by auto
  from ok a assms(2) have n: "1000 \<le> sint n" "sint n \<le> 1000 + m"
    unfolding sequences_ok_def by auto
  with bound have "sint n < 2 ^ 63 - 1" by simp
  from sint_succ[OF this] have n1: "sint (n + 1) = sint n + 1" .
  from a n have sk: "1000 \<le> sint (Sku item')" by simp
  have "sequences_ok c (docs w') (m + 1)"
    unfolding sequences_ok_def
  proof (intro conjI ballI allI impI)
    fix x
    assume x: "x \<in> set (docs w')"
    show "case x of (r, d) \<Rightarrow> fst r = data c \<and> r \<noteq> (util c, skuDoc) \<longrightarrow>
        (\<exists>i. DataTo d = Inr i \<and> 1000 \<le> sint (Sku i))"
    proof -
      from x a(5) set_update_cases[of x ref "item_doc item'"]
      consider "x = (ref, item_doc item')"
        | "x \<in> set (AList.update (util c, skuDoc) (AList.update nextField (IntegerValue (n + 1)) d) (docs w))"
        by auto
      then show ?thesis
      proof cases
        case 1
        with sk DataTo_item_doc show ?thesis by auto
      next
        case 2
        from set_update_cases[OF 2]
        consider "x = ((util c, skuDoc), AList.update nextField (IntegerValue (n + 1)) d)"
          | "x \<in> set (docs w)" by auto
        then show ?thesis
        proof cases
          case 1
          then show ?thesis by simp
        next
          case 2
          with ok assms(2) show ?thesis unfolding sequences_ok_def by blast
        qed
      qed
    qed
  next
    fix d' n'
    assume b: "map_of (docs w') (util c, skuDoc) = Some d' \<and> map_of d' nextField = Some (IntegerValue n')"
    with a(5) ne have "n' = n + 1" by (auto simp: update_conv')
    with n n1 show "1000 \<le> sint n'" "sint n' \<le> 1000 + (m + 1)" by auto
  qed
  with sk show ?thesis by simp
qed

lemma sequences_ok_AddItem:
  assumes "sequences_ok c (docs w) m" and "AddItem c us w i = Some (res, us', w', i')"
      and "1000 + m + 1 < 2 ^ 63"
  shows "sequences_ok c (docs w') (m + 1) \<and> (\<forall>u. res = Inr u \<longrightarrow> 1000 \<le> sint (Sku i'))"
proof (cases res)
  case (Inl e)
  with AddItem_cases[OF assms(2)] have "docs w' = docs w" by simp
  with assms(1) Inl sequences_ok_mono[of c "docs w" m "m + 1"] show ?thesis by simp
next
  case (Inr u)
  with AddItem_cases[OF assms(2)] obtain w0 i0 where
    "docs w0 = docs w" "create c w0 (data c, u) i0 = (None, w', i')" by auto
  with sequences_ok_create[of c "docs w" m w0 "(data c, u)" i0 w' i'] assms(1,3)
  show ?thesis by simp
qed

lemma serve_all_sequences_ok:
  "sequences_ok c (docs w) m \<Longrightarrow> serve_all c w rs = Some (w', created) \<Longrightarrow>
   (\<forall>i. Update i \<in> set rs \<longrightarrow> 1000 \<le> sint (Sku i)) \<Longrightarrow>
   1000 + m + int (length (filter is_Add rs)) < 2 ^ 63 \<Longrightarrow>
     sequences_ok c (docs w') (m + int (length (filter is_Add rs))) \<and>
     (\<forall>i \<in> set created. 1000 \<le> sint (Sku i))"
proof (induction c w rs arbitrary: m created rule: serve_all.induct)
  case (1 c w)
  then show ?case by simp
next
  case (2 c w us i rs)
  from "2.prems"(2) obtain res us' w1 i1 rest where
    add: "AddItem c us w i = Some (res, us', w1, i1)" and
    run: "serve_all c w1 rs = Some (w', rest)" and
    cre: "created = (case res of Inl err \<Rightarrow> rest | Inr u \<Rightarrow> i1 # rest)"
    by (auto split: option.splits prod.splits)
  from "2.prems"(4) have b1: "1000 + m + 1 < 2 ^ 63" by simp
  from sequences_ok_AddItem[OF "2.prems"(1) add b1]
  have ok1: "sequences_ok c (docs w1) (m + 1)" and
    sk: "\<forall>u. res = Inr u \<longrightarrow> 1000 \<le> sint (Sku i1)" by auto
  from "2.prems"(3) have up: "\<forall>i. Update i \<in> set rs \<longrightarrow> 1000 \<le> sint (Sku i)" by simp
  from "2.prems"(4) have b2: "1000 + (m + 1) + int (length (filter is_Add rs)) < 2 ^ 63" by simp
  from "2.IH"[OF add refl refl refl ok1 run up b2]
  have "sequences_ok c (docs w') (m + 1 + int (length (filter is_Add rs)))"
    "\<forall>i \<in> set rest. 1000 \<le> sint (Sku i)" by auto
  with cre sk show ?case by (auto simp: add.assoc split: sum.splits)
next
  case (3 c w k rs)
  from "3.prems" "3.IH"[of m created] show ?case by (simp add: GetItem_frame)
next
  case (4 c w sku rs)
  from "4.prems" "4.IH"[of m created] show ?case by (simp add: GetItemBySKU_frame)
next
  case (5 c w rs)
  from "5.prems" "5.IH"[of m created] show ?case by (simp add: ListItems_frame)
next
  case (6 c w i rs)
  obtain r w1 where u: "UpdateItem c w i = (r, w1)" by (cases "UpdateItem c w i")
  from "6.prems"(3) have sk: "1000 \<le> sint (Sku i)" by simp
  from UpdateItem_cases[OF u] sequences_ok_update[OF "6.prems"(1) sk] "6.prems"(1)
  have ok1: "sequences_ok c (docs w1) m" by (cases r) auto
  from "6.prems" u ok1 "6.IH"[of m created] show ?case by simp
next
  case (7 c w k rs)
  obtain r w1 where d: "DeleteItem c w k = (r, w1)" by (cases "DeleteItem c w k")
  from DeleteItem_cases[OF d] sequences_ok_delete[OF "7.prems"(1)] "7.prems"(1)
  have ok1: "sequences_ok c (docs w1) m" by (cases r) auto
  from "7.prems" d ok1 "7.IH"[of m created] show ?case by simp
qed

lemma serve_spoon_spork:
  "serve_all shop seeded
     [Add [''a''] \<lparr>ID = [], Name = ''spoon'', Sku = 0\<rparr>,
      Add [''a'', ''b''] \<lparr>ID = [], Name = ''spork'', Sku = 0\<rparr>,
      Update \<lparr>ID = ''b'', Name = ''spork'', Sku = 1001\<rparr>] =
   Some (spoon_and_spork, [spoon, spork])"
  by (simp add: run_defs shop_defs UpdateItem_def doc_Get_def doc_Set_def)

text \<open>
  C9, as the claim states it, fails: on a freshly initialized database a record is
  added (it gets the sequence number 1000) and then updated with a record that carries
  the sequence number 0; the database then holds a record whose sequence number is
  below 1000, and \<open>ListItems\<close> returns it.
\<close>

theorem update_stores_sequence_below_1000:
  "Client_startSKU shop fresh = (None, seeded) \<and>
   serve_all shop seeded
     [Add [''a''] \<lparr>ID = [], Name = ''spoon'', Sku = 0\<rparr>,
      Update \<lparr>ID = ''a'', Name = ''ladle'', Sku = 0\<rparr>] =
     Some (relabelled, [spoon]) \<and>
   fst (ListItems shop relabelled) = Inr [\<lparr>ID = ''a'', Name = ''ladle'', Sku = 0\<rparr>] \<and>
   sint (Sku \<lparr>ID = ''a'', Name = ''ladle'', Sku = 0\<rparr>) < 1000"
  by (simp add: run_defs shop_defs UpdateItem_def doc_Get_def doc_Set_def relabelled_def
      ListItems_def query_GetAll_def collection_docs_def DataTo_def string_field_def int_field_def)

text \<open>
  C9, amended. Start from a database with no counter document and no document in the
  data collection, let \<open>startSKU\<close> succeed, and run any requests to the client in which
  every \<open>UpdateItem\<close> supplies a sequence number of at least 1000 and whose calls of
  \<open>AddItem\<close> are fewer than \<open>2^63 - 1000\<close> (the 64-bit counter does not wrap). Then every
  record that a successful \<open>AddItem\<close> has created was given a sequence number of at
  least 1000, and every record in the data collection (the counter document apart, should
  the two collections be the same) decodes with a sequence number of at least 1000.
\<close>

theorem sequences_at_least_1000:
  assumes "map_of (docs w00) (util c, skuDoc) = None"
      and "\<forall>(r, d) \<in> set (docs w00). fst r \<noteq> data c"
      and "Client_startSKU c w00 = (None, w0)"
      and "serve_all c w0 rs = Some (w', created)"
      and "\<forall>i. Update i \<in> set rs \<longrightarrow> 1000 \<le> sint (Sku i)"
      and "1000 + int (length (filter is_Add rs)) < 2 ^ 63"
  shows "(\<forall>i \<in> set created. 1000 \<le> sint (Sku i)) \<and>
     (\<forall>(r, d) \<in> set (docs w'). fst r = data c \<and> r \<noteq> (util c, skuDoc) \<longrightarrow>
        (\<exists>i. DataTo d = Inr i \<and> 1000 \<le> sint (Sku i)))"
proof -
  from Client_startSKU_cases[OF assms(3)] assms(1)
  have d0: "docs w0 = AList.update (util c, skuDoc) [(nextField, IntegerValue startSKU)] (docs w00)"
    by simp
  have ok0: "sequences_ok c (docs w0) 0"
    unfolding sequences_ok_def
  proof (intro conjI ballI allI impI)
    fix x
    assume "x \<in> set (docs w0)"
    with d0 set_update_cases[of x "(util c, skuDoc)" "[(nextField, IntegerValue startSKU)]" "docs w00"]
    have "x = ((util c, skuDoc), [(nextField, IntegerValue startSKU)]) \<or> x \<in> set (docs w00)"
      by simp
    with assms(2) show "case x of (r, d) \<Rightarrow> fst r = data c \<and> r \<noteq> (util c, skuDoc) \<longrightarrow>
        (\<exists>i. DataTo d = Inr i \<and> 1000 \<le> sint (Sku i))" by auto
  next
    fix d n
    assume "map_of (docs w0) (util c, skuDoc) = Some d \<and> map_of d nextField = Some (IntegerValue n)"
    with d0 have "n = startSKU" by (auto simp: update_conv')
    then show "1000 \<le> sint n" "sint n \<le> 1000 + 0" by (simp_all add: startSKU_def)
  qed
  from assms(6) have b: "1000 + 0 + int (length (filter is_Add rs)) < 2 ^ 63" by simp
  from serve_all_sequences_ok[OF ok0 assms(4) assms(5) b]
  show ?thesis unfolding sequences_ok_def by blast
qed
theorem sequences_at_least_1000_witness:
  "map_of (docs fresh) (util shop, skuDoc) = None \<and>
   Client_startSKU shop fresh = (None, seeded) \<and>
   serve_all shop seeded
     [Add [''a''] \<lparr>ID = [], Name = ''spoon'', Sku = 0\<rparr>,
      Add [''a'', ''b''] \<lparr>ID = [], Name = ''spork'', Sku = 0\<rparr>,
      Update \<lparr>ID = ''b'', Name = ''spork'', Sku = 1001\<rparr>] =
     Some (spoon_and_spork, [spoon, spork]) \<and>
   1000 \<le> sint (Sku spoon) \<and> 1000 \<le> sint (Sku spork) \<and>
   (\<exists>i. DataTo [(''id'', StringValue ''b''), (''name'', StringValue ''spork''),
          (''sku'', IntegerValue 1001)] = Inr i \<and> 1000 \<le> sint (Sku i))"
proof -
  have h1: "map_of (docs fresh) (util shop, skuDoc) = None" by (simp add: fresh_def)
  have h2: "\<forall>(r, d) \<in> set (docs fresh). fst r \<noteq> data shop" by (simp add: fresh_def)
  have h5: "\<forall>i. Update i \<in> set
     [Add [''a''] \<lparr>ID = [], Name = ''spoon'', Sku = 0\<rparr>,
      Add [''a'', ''b''] \<lparr>ID = [], Name = ''spork'', Sku = 0\<rparr>,
      Update \<lparr>ID = ''b'', Name = ''spork'', Sku = 1001\<rparr>] \<longrightarrow> 1000 \<le> sint (Sku i)"
    by auto
  have h6: "1000 + int (length (filter is_Add
     [Add [''a''] \<lparr>ID = [], Name = ''spoon'', Sku = 0\<rparr>,
      Add [''a'', ''b''] \<lparr>ID = [], Name = ''spork'', Sku = 0\<rparr>,
      Update \<lparr>ID = ''b'', Name = ''spork'', Sku = 1001\<rparr>])) < 2 ^ 63"
    by simp
  note t = sequences_at_least_1000[OF h1 h2 startSKU_fresh serve_spoon_spork h5 h6]
  from t have a: "1000 \<le> sint (Sku spoon)" "1000 \<le> sint (Sku spork)" by simp_all
  have m: "((''items'', ''b''), [(''id'', StringValue ''b''), (''name'', StringValue ''spork''),
          (''sku'', IntegerValue 1001)]) \<in> set (docs spoon_and_spork)"
    by (simp add: spoon_and_spork_def)
  have ne: "fst (''items'', ''b'') = data shop \<and> (''items'', ''b'') \<noteq> (util shop, skuDoc)"
    by (simp add: shop_def)
  from t m ne have b: "\<exists>i. DataTo [(''id'', StringValue ''b''), (''name'', StringValue ''spork''),
          (''sku'', IntegerValue 1001)] = Inr i \<and> 1000 \<le> sint (Sku i)" by blast
  from h1 startSKU_fresh serve_spoon_spork a b show ?thesis by simp
qed

end
